theory Spec2Isabelle
  imports Complex_Main "HOL-Library.AList"
begin

section \<open>JavaScript values and strings\<close>

text \<open>
  The driver is JavaScript. The values that flow through the synchronisation engine are
  modelled by \<open>jsval\<close>: \<open>undefined\<close>, \<open>null\<close>, booleans, numbers and strings. Numbers are
  exact rationals (IEEE rounding is not modelled); where JavaScript arithmetic can yield
  \<open>NaN\<close> the model uses \<open>rat option\<close> with \<open>None\<close> for \<open>NaN\<close>.
\<close>

datatype jsval = JUndefined | JNull | JBool bool | JNum rat | JStr string

text \<open>\<open>s.startsWith(p)\<close> and \<open>s.includes(sub)\<close> of JavaScript strings.\<close>

definition startsWith :: "string \<Rightarrow> string \<Rightarrow> bool" where
  "startsWith s p = (take (length p) s = p)"

fun js_includes :: "string \<Rightarrow> string \<Rightarrow> bool" where
  "js_includes [] sub = (sub = [])"
| "js_includes (c # cs) sub = (startsWith (c # cs) sub \<or> js_includes cs sub)"

text \<open>
  A template literal \<open>`${n}`\<close> of a non-negative integer is its decimal numeral, most
  significant digit first.
\<close>

definition digit_char :: "nat \<Rightarrow> char" where
  "digit_char d = ''0123456789'' ! d"

fun dec :: "nat \<Rightarrow> string" where
  "dec n = (if n < 10 then [digit_char n] else dec (n div 10) @ [digit_char (n mod 10)])"

declare dec.simps [simp del]

section \<open>Data model of the device\<close>

text \<open>\<open>WallWandDevice.DEVICE_TYPES\<close>: the strings \<open>'dimmer'\<close> and \<open>'switch'\<close>.\<close>

datatype device_type = DIMMER | SWITCH

text \<open>
  \<open>this._endpointTypes\<close>: a JavaScript object from endpoint number to \<open>'dimmer'\<close>,
  \<open>'switch'\<close> or \<open>null\<close>. It is an association list read with \<open>map_of\<close>: no entry is a
  missing key, \<open>Some None\<close> is the value \<open>null\<close>.
\<close>

type_synonym endpoint_types = "(nat \<times> device_type option) list"

text \<open>The four flow triggers, as \<open>_triggerEndpoint\<close> is called for them.\<close>

datatype flow_trigger =
    endpoint_turned_on nat
  | endpoint_turned_off nat
  | endpoint_dim_changed nat rat
  | endpoint_state_changed nat bool

text \<open>
  The device object together with the state the host keeps for it: the Registry, the
  capability list with the current value of each capability (\<open>getCapabilities\<close>,
  \<open>hasCapability\<close>, \<open>getCapabilityValue\<close>), the persisted copy of the Registry
  (\<open>setStoreValue('endpointTypes', ...)\<close>), the flow triggers requested so far (oldest
  first) and the warnings logged with \<open>this.warning\<close>. Labels, settings and the ordinary log
  are left out.
\<close>

record device =
  endpointTypes :: endpoint_types
  capabilities :: "(string \<times> jsval) list"
  storeValue :: "endpoint_types option"
  triggered :: "flow_trigger list"
  warnings :: "string list"

text \<open>
  What the collaborators outside the driver do when called. The host may reject
  \<open>addCapability\<close>, \<open>removeCapability\<close> and \<open>setCapabilityValue\<close> for a capability id;
  \<open>registerCapability\<close> of the Z-Wave base class, called with a capability id and a
  command class name, may throw an error with a message; the
  driver manifest lists the static capability ids; \<open>StringToNumber\<close> is the language's
  conversion of a string to a number (\<open>None\<close> for \<open>NaN\<close>). \<open>setStoreValue\<close> is taken to
  succeed, and \<open>setCapabilityValue\<close> to take effect before the capability is read again.

  Two more things are decided outside the driver. The driver calls \<open>this.warning\<close> once, and
  defines no such method in either revision (its other messages go to \<open>this.log\<close> and
  \<open>this.error\<close>): \<open>warning_defined\<close> says whether the base class has one.
  \<open>abs_diff_below_hundredth a b\<close> is \<open>Math.abs(a - b) < 0.01\<close> as double arithmetic
  evaluates it, which is not the exact comparison close to the bound.
\<close>

record host =
  addCapability_fails :: "string \<Rightarrow> bool"
  removeCapability_fails :: "string \<Rightarrow> bool"
  setCapabilityValue_fails :: "string \<Rightarrow> bool"
  registerCapability_throws :: "string \<Rightarrow> string \<Rightarrow> string option"
  manifest_capabilities :: "string list"
  StringToNumber :: "string \<Rightarrow> rat option"
  warning_defined :: bool
  abs_diff_below_hundredth :: "rat \<Rightarrow> rat \<Rightarrow> bool"

text \<open>The result of a \<open>GET\<close>: the promise rejects with an error message or resolves to a
  report. A report is an object with named fields, or something that is not an object
  (\<open>null\<close>, \<open>undefined\<close>, a primitive).\<close>

datatype report = NotAnObject | Object "(string \<times> jsval) list"

datatype get_result = Rejects string | Resolves report

text \<open>A command class object of an endpoint; \<open>CC None\<close> has no \<open>GET\<close> function.\<close>

datatype command_class = CC "get_result option"

text \<open>An entry of \<open>node.MultiChannelNodes\<close>; a missing \<open>CommandClass\<close> object is read as
  \<open>{}\<close> by the driver, which is both command classes missing.\<close>

record endpoint =
  deviceClassGeneric :: string
  COMMAND_CLASS_SWITCH_MULTILEVEL :: "command_class option"
  COMMAND_CLASS_SWITCH_BINARY :: "command_class option"

definition Z_WAVE_MAX_DIM_VALUE :: rat where
  "Z_WAVE_MAX_DIM_VALUE = 99"

section \<open>Host capability primitives\<close>

definition onoffCap :: "nat \<Rightarrow> string" where
  "onoffCap endpointNum = ''onoff.ep'' @ dec endpointNum"

definition dimCap :: "nat \<Rightarrow> string" where
  "dimCap endpointNum = ''dim.ep'' @ dec endpointNum"

definition hasCapability :: "device \<Rightarrow> string \<Rightarrow> bool" where
  "hasCapability s cap = (map_of (capabilities s) cap \<noteq> None)"

text \<open>The driver reads a value only after \<open>hasCapability\<close>; a fresh capability holds \<open>null\<close>.\<close>

definition getCapabilityValue :: "device \<Rightarrow> string \<Rightarrow> jsval" where
  "getCapabilityValue s cap = (case map_of (capabilities s) cap of Some v \<Rightarrow> v | None \<Rightarrow> JNull)"

text \<open>\<open>this.setCapabilityValue(cap, v).catch(...)\<close>: a rejection is only logged.\<close>

definition setCapabilityValue :: "host \<Rightarrow> string \<Rightarrow> jsval \<Rightarrow> device \<Rightarrow> device" where
  "setCapabilityValue h cap v s =
     (if setCapabilityValue_fails h cap then s
      else s\<lparr>capabilities := AList.update cap v (capabilities s)\<rparr>)"

definition ensureCapability :: "host \<Rightarrow> string \<Rightarrow> device \<Rightarrow> device" where
  "ensureCapability h cap s =
     (if \<not> hasCapability s cap then
        (if addCapability_fails h cap then s
         else s\<lparr>capabilities := AList.update cap JNull (capabilities s)\<rparr>)
      else s)"

definition removeIfPresent :: "host \<Rightarrow> string \<Rightarrow> device \<Rightarrow> device" where
  "removeIfPresent h cap s =
     (if hasCapability s cap then
        (if removeCapability_fails h cap then s
         else s\<lparr>capabilities := AList.delete cap (capabilities s)\<rparr>)
      else s)"

definition removeEndpointCapabilities :: "host \<Rightarrow> nat \<Rightarrow> device \<Rightarrow> device" where
  "removeEndpointCapabilities h endpointNum s =
     removeIfPresent h (onoffCap endpointNum) (removeIfPresent h (dimCap endpointNum) s)"

definition setStoreValue :: "device \<Rightarrow> device" where
  "setStoreValue s = s\<lparr>storeValue := Some (endpointTypes s)\<rparr>"

section \<open>Applying values: \<open>_setOnOff\<close> and \<open>_setDim\<close>\<close>

definition triggerEndpoint :: "flow_trigger \<Rightarrow> device \<Rightarrow> device" where
  "triggerEndpoint t s = s\<lparr>triggered := triggered s @ [t]\<rparr>"

definition setOnOff :: "host \<Rightarrow> string \<Rightarrow> bool \<Rightarrow> nat \<Rightarrow> device \<Rightarrow> device" where
  "setOnOff h cap val endpointNum s =
     (if cap = [] then s
      else if \<not> hasCapability s cap then s
      else
        let oldValue = getCapabilityValue s cap;
            newValue = JBool val;
            s1 = setCapabilityValue h cap newValue s
        in if oldValue = newValue then s1
           else
             let s2 = (if val then triggerEndpoint (endpoint_turned_on endpointNum) s1
                       else triggerEndpoint (endpoint_turned_off endpointNum) s1)
             in triggerEndpoint (endpoint_state_changed endpointNum val) s2)"

text \<open>\<open>value01\<close> is a JavaScript number; \<open>None\<close> is \<open>NaN\<close>, which \<open>Number(value01) || 0\<close>
  turns into 0.\<close>

definition setDim :: "host \<Rightarrow> string \<Rightarrow> rat option \<Rightarrow> nat \<Rightarrow> device \<Rightarrow> device" where
  "setDim h cap value01 endpointNum s =
     (if cap = [] then s
      else if endpointNum < 1 then s
      else
        let normalizedValue = max 0 (min 1 (case value01 of None \<Rightarrow> 0 | Some x \<Rightarrow> x))
        in if \<not> hasCapability s cap then s
           else
             let oldValue = getCapabilityValue s cap;
                 s1 = setCapabilityValue h cap (JNum normalizedValue) s
             in if oldValue = JNum normalizedValue then s1
                else triggerEndpoint (endpoint_dim_changed endpointNum normalizedValue) s1)"


section \<open>Coercions of the language\<close>

text \<open>\<open>!!v\<close>.\<close>

definition truthy :: "jsval \<Rightarrow> bool" where
  "truthy v = (case v of JUndefined \<Rightarrow> False | JNull \<Rightarrow> False | JBool b \<Rightarrow> b
                 | JNum r \<Rightarrow> r \<noteq> 0 | JStr s \<Rightarrow> s \<noteq> [])"

text \<open>\<open>Number(v)\<close>, also applied implicitly by comparison, subtraction and division with a number.\<close>

definition ToNumber :: "host \<Rightarrow> jsval \<Rightarrow> rat option" where
  "ToNumber h v = (case v of JUndefined \<Rightarrow> None | JNull \<Rightarrow> Some 0
                     | JBool b \<Rightarrow> Some (if b then 1 else 0)
                     | JNum r \<Rightarrow> Some r | JStr s \<Rightarrow> StringToNumber h s)"

definition js_gt :: "host \<Rightarrow> jsval \<Rightarrow> rat \<Rightarrow> bool" where
  "js_gt h v r = (case ToNumber h v of None \<Rightarrow> False | Some x \<Rightarrow> x > r)"

definition js_lt :: "host \<Rightarrow> jsval \<Rightarrow> rat \<Rightarrow> bool" where
  "js_lt h v r = (case ToNumber h v of None \<Rightarrow> False | Some x \<Rightarrow> x < r)"

definition js_div :: "host \<Rightarrow> jsval \<Rightarrow> rat \<Rightarrow> rat option" where
  "js_div h v r = (case ToNumber h v of None \<Rightarrow> None | Some x \<Rightarrow> Some (x / r))"

text \<open>\<open>error.message || error.toString()\<close> of an \<open>Error\<close> with the given message.\<close>

definition errorMsg_of :: "string \<Rightarrow> string" where
  "errorMsg_of message = (if message = [] then ''Error'' else message)"

text \<open>\<open>Object.keys\<close> of an object whose keys are endpoint numbers: ascending.\<close>

definition object_keys :: "(nat \<times> 'a) list \<Rightarrow> nat list" where
  "object_keys obj = sort (remdups (map fst obj))"

text \<open>A Registry entry that is neither missing nor \<open>null\<close>.\<close>

definition classified :: "device \<Rightarrow> nat \<Rightarrow> bool" where
  "classified s endpointNum =
     (case map_of (endpointTypes s) endpointNum of Some (Some t) \<Rightarrow> True | _ \<Rightarrow> False)"

section \<open>State Synchronizer\<close>

definition isValidReport :: "report \<Rightarrow> string \<Rightarrow> bool" where
  "isValidReport rep requiredField =
     (case rep of NotAnObject \<Rightarrow> False | Object flds \<Rightarrow> map_of flds requiredField \<noteq> None)"

definition report_field :: "report \<Rightarrow> string \<Rightarrow> jsval" where
  "report_field rep name =
     (case rep of NotAnObject \<Rightarrow> JUndefined
      | Object flds \<Rightarrow> (case map_of flds name of None \<Rightarrow> JUndefined | Some v \<Rightarrow> v))"

text \<open>
  The two type-specific reads return \<open>Inr True\<close> or \<open>Inr False\<close>, or throw (\<open>Inl\<close>) the error
  of a rejected \<open>GET\<close>; the device is returned as it is at that point.
\<close>

definition syncDimmerState ::
  "host \<Rightarrow> nat \<Rightarrow> endpoint \<Rightarrow> string \<Rightarrow> string \<Rightarrow> device \<Rightarrow> (string + bool) \<times> device" where
  "syncDimmerState h endpointNum ep onoff_cap dim_cap s =
     (let s1 = ensureCapability h onoff_cap s;
          s2 = ensureCapability h dim_cap s1
      in case COMMAND_CLASS_SWITCH_MULTILEVEL ep of
           None \<Rightarrow> (Inr False, s2)
         | Some (CC None) \<Rightarrow> (Inr False, s2)
         | Some (CC (Some (Rejects message))) \<Rightarrow> (Inl message, s2)
         | Some (CC (Some (Resolves rep))) \<Rightarrow>
             if isValidReport rep ''Current Value'' then
               let dimValue = report_field rep ''Current Value'';
                   s3 = setOnOff h onoff_cap (js_gt h dimValue 0) endpointNum s2;
                   s4 = setDim h dim_cap (js_div h dimValue Z_WAVE_MAX_DIM_VALUE) endpointNum s3
               in (Inr True, s4)
             else (Inr False, s2))"

definition syncSwitchState ::
  "host \<Rightarrow> nat \<Rightarrow> endpoint \<Rightarrow> string \<Rightarrow> string \<Rightarrow> device \<Rightarrow> (string + bool) \<times> device" where
  "syncSwitchState h endpointNum ep onoff_cap dim_cap s =
     (let s1 = removeIfPresent h dim_cap s;
          s2 = ensureCapability h onoff_cap s1
      in case COMMAND_CLASS_SWITCH_BINARY ep of
           None \<Rightarrow> (Inr False, s2)
         | Some (CC None) \<Rightarrow> (Inr False, s2)
         | Some (CC (Some (Rejects message))) \<Rightarrow> (Inl message, s2)
         | Some (CC (Some (Resolves rep))) \<Rightarrow>
             if isValidReport rep ''Value'' then
               let isOn = (report_field rep ''Value'' = JStr ''on/enable''
                           \<or> report_field rep ''Value'' = JNum 1)
               in (Inr True, setOnOff h onoff_cap isOn endpointNum s2)
             else (Inr False, s2))"

text \<open>
  The \<open>try\<close> block of \<open>_syncOneEndpointState\<close>: \<open>None\<close> when it completes, \<open>Some errorMsg\<close>
  with the message seen by the \<open>catch\<close> block otherwise.
\<close>

definition sync_try ::
  "host \<Rightarrow> nat \<Rightarrow> endpoint \<Rightarrow> device_type \<Rightarrow> device \<Rightarrow> string option \<times> device" where
  "sync_try h endpointNum ep deviceType s =
     (let (syncSuccess, s1) =
            (case deviceType of
               DIMMER \<Rightarrow> syncDimmerState h endpointNum ep (onoffCap endpointNum) (dimCap endpointNum) s
             | SWITCH \<Rightarrow> syncSwitchState h endpointNum ep (onoffCap endpointNum) (dimCap endpointNum) s)
      in case syncSuccess of
           Inl message \<Rightarrow> (Some (errorMsg_of message), s1)
         | Inr True \<Rightarrow> (None, s1)
         | Inr False \<Rightarrow> (Some (errorMsg_of ''Invalid or missing report during sync''), s1))"

text \<open>The tail of the \<open>catch\<close> block: mark as unsupported, remove the controls, persist.\<close>

definition demote :: "host \<Rightarrow> nat \<Rightarrow> device \<Rightarrow> device" where
  "demote h endpointNum s =
     setStoreValue
       (removeEndpointCapabilities h endpointNum
          (s\<lparr>endpointTypes := AList.update endpointNum None (endpointTypes s)\<rparr>))"

definition syncOneEndpointState :: "host \<Rightarrow> nat \<Rightarrow> endpoint option \<Rightarrow> device \<Rightarrow> device" where
  "syncOneEndpointState h endpointNum endpoint s =
     (case endpoint of
        None \<Rightarrow> removeEndpointCapabilities h endpointNum s
      | Some ep \<Rightarrow>
          (case map_of (endpointTypes s) endpointNum of
             None \<Rightarrow> s
           | Some None \<Rightarrow> s
           | Some (Some deviceType) \<Rightarrow>
               (case sync_try h endpointNum ep deviceType s of
                  (None, s1) \<Rightarrow> s1
                | (Some errorMsg, s1) \<Rightarrow>
                    if js_includes errorMsg ''timeout'' then s1
                    else demote h endpointNum s1)))"

text \<open>The part of the Z-Wave node the engine reads: the topology snapshot and whether the
  root device has the two command classes.\<close>

record node =
  MultiChannelNodes :: "(nat \<times> endpoint) list"
  root_SWITCH_MULTILEVEL :: bool
  root_SWITCH_BINARY :: bool

definition syncAllEndpointStates :: "host \<Rightarrow> node \<Rightarrow> device \<Rightarrow> device" where
  "syncAllEndpointStates h nd s =
     fold (\<lambda>endpointNum. syncOneEndpointState h endpointNum (map_of (MultiChannelNodes nd) endpointNum))
          (object_keys (endpointTypes s)) s"

definition syncEndpointsByType :: "host \<Rightarrow> device_type \<Rightarrow> node option \<Rightarrow> device \<Rightarrow> device" where
  "syncEndpointsByType h deviceType this_node s =
     (case this_node of
        None \<Rightarrow> s
      | Some nd \<Rightarrow>
          let endpointsToSync =
                filter (\<lambda>endpointNum. map_of (endpointTypes s) endpointNum = Some (Some deviceType))
                       (object_keys (endpointTypes s))
          in if endpointsToSync = [] then s
             else fold (\<lambda>endpointNum.
                          syncOneEndpointState h endpointNum (map_of (MultiChannelNodes nd) endpointNum))
                       endpointsToSync s)"


section \<open>Discovery Engine\<close>

text \<open>
  The repository holds two revisions of the driver: \<open>src/device.js\<close> and the device class
  in \<open>src/unnamed/part_000\<close>. They differ in \<open>_discoverOneEndpoint\<close> and
  \<open>_registerEndpointCapabilities\<close> (and the second adds the command queue); both variants
  are given, the second with the suffix \<open>_part_000\<close>.
\<close>

datatype revision = device_js | part_000

definition detectEndpointType :: "endpoint \<Rightarrow> device_type option" where
  "detectEndpointType ep =
     (let isDimmer = (deviceClassGeneric ep = ''GENERIC_TYPE_SWITCH_MULTILEVEL''
                      \<and> COMMAND_CLASS_SWITCH_MULTILEVEL ep \<noteq> None);
          isSwitch = (deviceClassGeneric ep = ''GENERIC_TYPE_SWITCH_BINARY''
                      \<and> COMMAND_CLASS_SWITCH_BINARY ep \<noteq> None)
      in if isDimmer then Some DIMMER else if isSwitch then Some SWITCH else None)"

text \<open>
  One \<open>try { this.registerCapability(...) } catch\<close> of \<open>src/device.js\<close>: \<open>None\<close> when
  nothing is thrown on, \<open>Some message\<close> when the error is thrown again.
\<close>

definition try_registerCapability :: "host \<Rightarrow> string \<Rightarrow> string \<Rightarrow> string option" where
  "try_registerCapability h cap cc =
     (case registerCapability_throws h cap cc of
        None \<Rightarrow> None
      | Some message \<Rightarrow>
          let errorMsg = errorMsg_of message
          in if js_includes errorMsg ''timeout''
                \<or> js_includes errorMsg ''capability get command failed''
             then None else Some message)"

definition registerEndpointCapabilities :: "host \<Rightarrow> nat \<Rightarrow> device_type \<Rightarrow> string option" where
  "registerEndpointCapabilities h endpointNum deviceType =
     (case deviceType of
        DIMMER \<Rightarrow>
          (case try_registerCapability h (onoffCap endpointNum) ''SWITCH_MULTILEVEL'' of
             Some message \<Rightarrow> Some message
           | None \<Rightarrow> try_registerCapability h (dimCap endpointNum) ''SWITCH_MULTILEVEL'')
      | SWITCH \<Rightarrow> try_registerCapability h (onoffCap endpointNum) ''SWITCH_BINARY'')"

definition discoverOneEndpoint :: "host \<Rightarrow> nat \<Rightarrow> endpoint option \<Rightarrow> device \<Rightarrow> device" where
  "discoverOneEndpoint h endpointNum endpoint s =
     (case endpoint of
        None \<Rightarrow> s
      | Some ep \<Rightarrow>
          if classified s endpointNum then s
          else
            (case detectEndpointType ep of
               None \<Rightarrow>
                 removeEndpointCapabilities h endpointNum
                   (s\<lparr>endpointTypes := AList.update endpointNum None (endpointTypes s)\<rparr>)
             | Some deviceType \<Rightarrow>
                 (case registerEndpointCapabilities h endpointNum deviceType of
                    None \<Rightarrow>
                      setStoreValue
                        (s\<lparr>endpointTypes :=
                             AList.update endpointNum (Some deviceType) (endpointTypes s)\<rparr>)
                  | Some message \<Rightarrow>
                      if message \<noteq> [] \<and> js_includes message ''timeout'' then
                        setStoreValue
                          (s\<lparr>endpointTypes :=
                               AList.update endpointNum (Some deviceType) (endpointTypes s)\<rparr>)
                      else s)))"

text \<open>
  The same two functions in \<open>src/unnamed/part_000\<close>. There the capabilities are added
  before the handlers are registered, an error of \<open>registerCapability\<close> is thrown on as a
  new \<open>Error\<close> with a longer message, and an endpoint that is already known has its
  capabilities registered again.
\<close>

definition try_registerCapability_part_000 :: "host \<Rightarrow> string \<Rightarrow> string \<Rightarrow> string option" where
  "try_registerCapability_part_000 h cap cc =
     (case registerCapability_throws h cap cc of
        None \<Rightarrow> None
      | Some message \<Rightarrow>
          let errorMsg = errorMsg_of message
          in if js_includes errorMsg ''timeout'' \<or> js_includes errorMsg ''did not respond''
                \<or> js_includes errorMsg ''NO_ACK''
             then None else Some (''Failed to register '' @ cap @ '': '' @ errorMsg))"

definition registerEndpointCapabilities_part_000 ::
  "host \<Rightarrow> nat \<Rightarrow> device_type \<Rightarrow> device \<Rightarrow> string option \<times> device" where
  "registerEndpointCapabilities_part_000 h endpointNum deviceType s =
     (case deviceType of
        DIMMER \<Rightarrow>
          let s1 = ensureCapability h (onoffCap endpointNum) s;
              s2 = ensureCapability h (dimCap endpointNum) s1
          in (case try_registerCapability_part_000 h (onoffCap endpointNum) ''SWITCH_MULTILEVEL'' of
                Some message \<Rightarrow> (Some message, s2)
              | None \<Rightarrow>
                  (try_registerCapability_part_000 h (dimCap endpointNum) ''SWITCH_MULTILEVEL'', s2))
      | SWITCH \<Rightarrow>
          let s1 = ensureCapability h (onoffCap endpointNum) s
          in (try_registerCapability_part_000 h (onoffCap endpointNum) ''SWITCH_BINARY'', s1))"

definition discoverOneEndpoint_part_000 ::
  "host \<Rightarrow> nat \<Rightarrow> endpoint option \<Rightarrow> device \<Rightarrow> device" where
  "discoverOneEndpoint_part_000 h endpointNum endpoint s =
     (case endpoint of
        None \<Rightarrow> s
      | Some ep \<Rightarrow>
          (case detectEndpointType ep of
             None \<Rightarrow>
               removeEndpointCapabilities h endpointNum
                 (s\<lparr>endpointTypes := AList.update endpointNum None (endpointTypes s)\<rparr>)
           | Some deviceType \<Rightarrow>
               if classified s endpointNum then
                 snd (registerEndpointCapabilities_part_000 h endpointNum deviceType s)
               else
                 (case registerEndpointCapabilities_part_000 h endpointNum deviceType s of
                    (None, s1) \<Rightarrow>
                      setStoreValue
                        (s1\<lparr>endpointTypes :=
                              AList.update endpointNum (Some deviceType) (endpointTypes s1)\<rparr>)
                  | (Some message, s1) \<Rightarrow>
                      let errorMsg = errorMsg_of message
                      in if js_includes errorMsg ''timeout''
                            \<or> js_includes errorMsg ''capability get command failed''
                         then
                           setStoreValue
                             (s1\<lparr>endpointTypes :=
                                   AList.update endpointNum (Some deviceType) (endpointTypes s1)\<rparr>)
                         else s1)))"

text \<open>The regular expression \<open>/\.ep(\d+)$/\<close>: the digits after the last \<open>.ep\<close>, when the
  string ends with \<open>.ep\<close> and at least one digit.\<close>

definition is_digit :: "char \<Rightarrow> bool" where
  "is_digit c = (c \<in> set ''0123456789'')"

definition ep_suffix_digits :: "string \<Rightarrow> string option" where
  "ep_suffix_digits capId =
     (let r = rev capId; ds = takeWhile is_digit r; rest = dropWhile is_digit r
      in if ds \<noteq> [] \<and> startsWith rest ''pe.'' then Some (rev ds) else None)"

text \<open>\<open>parseInt(ds, 10)\<close> of a string of decimal digits.\<close>

definition parseInt10 :: "string \<Rightarrow> nat" where
  "parseInt10 ds = foldl (\<lambda>a c. 10 * a + (of_char c - 48)) 0 ds"

definition cleanupAllEndpoints :: "host \<Rightarrow> device \<Rightarrow> device" where
  "cleanupAllEndpoints h s =
     (let s1 = setStoreValue (s\<lparr>endpointTypes := []\<rparr>);
          endpointCapabilities =
            filter (\<lambda>capId. ep_suffix_digits capId \<noteq> None) (manifest_capabilities h)
      in fold (removeIfPresent h) endpointCapabilities s1)"

definition discoverAllEndpoints :: "revision \<Rightarrow> host \<Rightarrow> node \<Rightarrow> device \<Rightarrow> device" where
  "discoverAllEndpoints rv h nd s =
     (let endpoints = MultiChannelNodes nd;
          endpointIds = object_keys endpoints
      in if endpointIds = [] then cleanupAllEndpoints h s
         else fold (\<lambda>endpointNum s'.
                      if endpointNum < 1 then s'
                      else (case rv of
                              device_js \<Rightarrow>
                                discoverOneEndpoint h endpointNum (map_of endpoints endpointNum) s'
                            | part_000 \<Rightarrow>
                                discoverOneEndpoint_part_000 h endpointNum
                                  (map_of endpoints endpointNum) s'))
                   endpointIds s)"

definition maxManifestEndpoint :: "string list \<Rightarrow> nat" where
  "maxManifestEndpoint manifestCapabilities =
     fold (\<lambda>capId m. case ep_suffix_digits capId of
                        None \<Rightarrow> m
                      | Some ds \<Rightarrow> if parseInt10 ds > m then parseInt10 ds else m)
          manifestCapabilities 0"

definition cleanupOrphanedEndpoints :: "host \<Rightarrow> device \<Rightarrow> device" where
  "cleanupOrphanedEndpoints h s =
     (let m = maxManifestEndpoint (manifest_capabilities h)
      in if m = 0 then s
         else fold (\<lambda>i s'.
                      if map_of (endpointTypes s') i = None \<or> map_of (endpointTypes s') i = Some None
                      then (if hasCapability s' (onoffCap i) \<or> hasCapability s' (dimCap i)
                            then removeEndpointCapabilities h i s' else s')
                      else s')
                   [1..<Suc m] s)"

section \<open>Health Monitor\<close>

definition discoveredCount :: "device \<Rightarrow> nat" where
  "discoveredCount s = length (object_keys (endpointTypes s))"

definition capabilityCount :: "device \<Rightarrow> nat" where
  "capabilityCount s =
     length (filter (\<lambda>c. startsWith c ''onoff.ep'' \<or> startsWith c ''dim.ep'')
                    (map fst (capabilities s)))"

text \<open>
  The result is the device, with \<open>Some message\<close> when the call rejects and \<open>None\<close> when it
  completes. In the desync state the first statement is \<open>this.warning(...)\<close>, outside the
  \<open>try\<close> block: when the base class has no such method the call throws a \<open>TypeError\<close> that
  nothing catches, and no statement after it runs. Inside the \<open>try\<close> block \<open>this.node\<close> may
  be missing; \<open>_discoverAllEndpoints\<close> then throws when it reads \<open>node.MultiChannelNodes\<close>,
  which the \<open>catch\<close> logs.
\<close>

definition checkDeviceHealth ::
  "revision \<Rightarrow> host \<Rightarrow> node option \<Rightarrow> device \<Rightarrow> string option \<times> device" where
  "checkDeviceHealth rv h this_node s =
     (if discoveredCount s = 0 \<and> capabilityCount s > 0 then
        if warning_defined h then
          let s1 = s\<lparr>warnings := warnings s @ [''[HEALTH] Endpoint types lost, attempting rediscovery'']\<rparr>
          in (None,
              case this_node of
                None \<Rightarrow> s1
              | Some nd \<Rightarrow> setStoreValue (discoverAllEndpoints rv h nd s1))
        else (Some ''TypeError: this.warning is not a function'', s)
      else (None, s))"

section \<open>Flow condition handlers\<close>

text \<open>
  The argument object of a condition card: \<open>endpoint\<close> may be missing, and so may its
  \<open>id\<close>; an id is a number, as \<open>_getEndpointAutocompleteList\<close> produces it.
\<close>

datatype endpoint_arg = EndpointArg (arg_id: "nat option")

record condition_args =
  args_endpoint :: "endpoint_arg option"
  args_comparison :: string
  args_level :: jsval

text \<open>\<open>args.endpoint?.id\<close>, with \<open>None\<close> for \<open>undefined\<close>.\<close>

definition endpoint_id :: "condition_args \<Rightarrow> nat option" where
  "endpoint_id args = (case args_endpoint args of None \<Rightarrow> None | Some e \<Rightarrow> arg_id e)"

text \<open>
  The device object as a flow card finds it. \<open>this._endpointTypes\<close> is assigned in
  \<open>onNodeInit\<close> only, after the early return for a missing node; \<open>onInit\<close> does not
  initialise it. Until then the field is \<open>undefined\<close>; from then on the device is a
  \<open>device\<close>. The operations of the engine run after the assignment; the condition handlers
  are called by the flow cards of the app whenever a flow is evaluated.
\<close>

datatype device_object = before_onNodeInit | after_onNodeInit device

text \<open>
  The handlers return a boolean (\<open>Inr\<close>) or throw (\<open>Inl\<close>, the promise of the \<open>async\<close>
  function rejects). \<open>args\<close> itself may be missing (\<open>None\<close>), which \<open>args.endpoint\<close> does
  not survive; \<open>this._endpointTypes[endpointNum]\<close> throws while the field is \<open>undefined\<close>.
\<close>

definition handleEndpointIsOn :: "device_object \<Rightarrow> condition_args option \<Rightarrow> string + bool" where
  "handleEndpointIsOn this args_opt =
     (case args_opt of
        None \<Rightarrow> Inl ''TypeError: args is undefined''
      | Some args \<Rightarrow>
          (case endpoint_id args of
             None \<Rightarrow> Inr False
           | Some endpointNum \<Rightarrow>
               if endpointNum = 0 then Inr False
               else
                 (case this of
                    before_onNodeInit \<Rightarrow> Inl ''TypeError: this._endpointTypes is undefined''
                  | after_onNodeInit s \<Rightarrow>
                      if \<not> classified s endpointNum then Inr False
                      else
                        let cap = onoffCap endpointNum
                        in if \<not> hasCapability s cap then Inr False
                           else Inr (truthy (getCapabilityValue s cap)))))"

definition handleEndpointDimCompare ::
  "host \<Rightarrow> device_object \<Rightarrow> condition_args option \<Rightarrow> string + bool" where
  "handleEndpointDimCompare h this args_opt =
     (case args_opt of
        None \<Rightarrow> Inl ''TypeError: args is undefined''
      | Some args \<Rightarrow>
          (case endpoint_id args of
             None \<Rightarrow> Inr False
           | Some endpointNum \<Rightarrow>
               if endpointNum = 0 then Inr False
               else
                 (case this of
                    before_onNodeInit \<Rightarrow> Inl ''TypeError: this._endpointTypes is undefined''
                  | after_onNodeInit s \<Rightarrow>
                      if \<not> classified s endpointNum then Inr False
                      else
                        let cap = dimCap endpointNum
                        in if \<not> hasCapability s cap then Inr False
                           else
                             let current = (if truthy (getCapabilityValue s cap)
                                            then getCapabilityValue s cap else JNum 0);
                                 target = (case ToNumber h (args_level args) of
                                             None \<Rightarrow> 0 | Some x \<Rightarrow> x)
                             in if args_comparison args = ''greater_than''
                                then Inr (js_gt h current target)
                                else if args_comparison args = ''less_than''
                                then Inr (js_lt h current target)
                                else if args_comparison args = ''equal_to'' then
                                  (case ToNumber h current of
                                     None \<Rightarrow> Inr False
                                   | Some c \<Rightarrow> Inr (abs_diff_below_hundredth h c target))
                                else Inr False)))"

section \<open>Root-Report Debouncer\<close>

text \<open>
  \<open>_registerRootDeviceListeners\<close> installs a listener for root reports of the multilevel
  command class and one for the binary command class, when the node has that command
  class. Both listeners use the one field \<open>this._syncTimeout\<close>. The host's timers are
  explicit: \<open>setTimeout\<close> enters a timer (handle, time at which it is due, the device type
  its callback passes to \<open>_syncEndpointsByType\<close>) and returns a fresh handle,
  \<open>clearTimeout\<close> removes the timer with that handle, and a timer that is due runs its
  callback and leaves the table. Time is in milliseconds. The calls of
  \<open>_syncEndpointsByType\<close> started by callbacks are recorded in \<open>synced\<close>, oldest first.
\<close>

definition SYNC_DEBOUNCE_MS :: "revision \<Rightarrow> nat" where
  "SYNC_DEBOUNCE_MS rv = (case rv of device_js \<Rightarrow> 100 | part_000 \<Rightarrow> 200)"

record debouncer =
  syncTimeout :: "nat option"
  timers :: "(nat \<times> nat \<times> device_type) list"
  next_handle :: nat
  multilevelListener_registered :: bool
  binaryListener_registered :: bool
  synced :: "device_type list"

text \<open>After \<open>onInit\<close> (\<open>this._syncTimeout = null\<close>) and \<open>_registerRootDeviceListeners(node)\<close>.\<close>

definition registerRootDeviceListeners :: "node \<Rightarrow> debouncer" where
  "registerRootDeviceListeners nd =
     \<lparr>syncTimeout = None, timers = [], next_handle = 1,
      multilevelListener_registered = root_SWITCH_MULTILEVEL nd,
      binaryListener_registered = root_SWITCH_BINARY nd,
      synced = []\<rparr>"

definition clearTimeout :: "nat \<Rightarrow> debouncer \<Rightarrow> debouncer" where
  "clearTimeout handle d = d\<lparr>timers := filter (\<lambda>(h', due, ty). h' \<noteq> handle) (timers d)\<rparr>"

definition setTimeout :: "device_type \<Rightarrow> nat \<Rightarrow> debouncer \<Rightarrow> nat \<times> debouncer" where
  "setTimeout ty due d =
     (next_handle d,
      d\<lparr>timers := timers d @ [(next_handle d, due, ty)], next_handle := Suc (next_handle d)\<rparr>)"

text \<open>The body shared by \<open>multilevelListener\<close> and \<open>binaryListener\<close>, run at time \<open>now\<close>;
  they differ in the device type of the callback only.\<close>

definition rootListener :: "revision \<Rightarrow> device_type \<Rightarrow> nat \<Rightarrow> debouncer \<Rightarrow> debouncer" where
  "rootListener rv ty now d =
     (let d1 = (case syncTimeout d of None \<Rightarrow> d | Some handle \<Rightarrow> clearTimeout handle d);
          (handle', d2) = setTimeout ty (now + SYNC_DEBOUNCE_MS rv) d1
      in d2\<lparr>syncTimeout := Some handle'\<rparr>)"

definition multilevelListener :: "revision \<Rightarrow> nat \<Rightarrow> debouncer \<Rightarrow> debouncer" where
  "multilevelListener rv now d = rootListener rv DIMMER now d"

definition binaryListener :: "revision \<Rightarrow> nat \<Rightarrow> debouncer \<Rightarrow> debouncer" where
  "binaryListener rv now d = rootListener rv SWITCH now d"

text \<open>The timers due at \<open>now\<close> run, in the order in which they were set.\<close>

definition run_due_timers :: "nat \<Rightarrow> debouncer \<Rightarrow> debouncer" where
  "run_due_timers now d =
     d\<lparr>timers := filter (\<lambda>(h', due, ty). \<not> due \<le> now) (timers d),
       synced := synced d @ map (\<lambda>(h', due, ty). ty) (filter (\<lambda>(h', due, ty). due \<le> now) (timers d))\<rparr>"

text \<open>What happens to the debouncer: a root report of one of the two command classes
  arrives, or time passes.\<close>

datatype root_event = multilevel_report | binary_report | time_passes

definition debounce_step :: "revision \<Rightarrow> nat \<times> root_event \<Rightarrow> debouncer \<Rightarrow> debouncer" where
  "debounce_step rv ev d =
     (let now = fst ev; d1 = run_due_timers now d
      in case snd ev of
           multilevel_report \<Rightarrow>
             if multilevelListener_registered d1 then multilevelListener rv now d1 else d1
         | binary_report \<Rightarrow>
             if binaryListener_registered d1 then binaryListener rv now d1 else d1
         | time_passes \<Rightarrow> d1)"

definition debounce_run :: "revision \<Rightarrow> (nat \<times> root_event) list \<Rightarrow> debouncer \<Rightarrow> debouncer" where
  "debounce_run rv evs d = fold (debounce_step rv) evs d"

definition pending_types :: "debouncer \<Rightarrow> device_type list" where
  "pending_types d = map (\<lambda>(h', due, ty). ty) (timers d)"

section \<open>Command Queue (\<open>src/unnamed/part_000\<close>)\<close>

definition COMMAND_DELAY_MS :: nat where
  "COMMAND_DELAY_MS = 250"

record command =
  capabilityId :: string
  cmd_value :: jsval
  timestamp :: nat

text \<open>How the future of a command is settled: \<open>command.resolve()\<close> or
  \<open>command.reject(error)\<close>.\<close>

datatype outcome = resolved | rejected string

text \<open>What the queue did and when: \<open>triggerCapabilityListener\<close> was called for a command,
  or the future of a command was settled.\<close>

datatype history_entry = applied command nat | settled command outcome nat

text \<open>An activation of \<open>_processCommandQueue\<close> that is suspended at one of its two
  \<open>await\<close>s: on \<open>triggerCapabilityListener\<close> for a command, or on \<open>_delay\<close> until a time.\<close>

datatype drain_loop = awaiting_command command | awaiting_delay nat

text \<open>
  The queue fields of the device, the suspended activations of the drain loop, the clock,
  and the history, most recent entry first.
\<close>

record queue_state =
  commandQueue :: "command list"
  isProcessingQueue :: bool
  loops :: "drain_loop list"
  clock :: nat
  history :: "history_entry list"

definition initial_queue :: queue_state where
  "initial_queue =
     \<lparr>commandQueue = [], isProcessingQueue = False, loops = [], clock = 0, history = []\<rparr>"

text \<open>
  The \<open>while\<close> loop from its head until the next \<open>await\<close>, for the activation at position
  \<open>i\<close> of \<open>loops\<close> (\<open>i = length (loops q)\<close> for a new activation): with a command in the queue
  it is shifted and applied and the activation waits for it; with an empty queue the flag
  is cleared and the activation ends.
\<close>

definition loop_head :: "nat \<Rightarrow> queue_state \<Rightarrow> queue_state" where
  "loop_head i q =
     (case commandQueue q of
        [] \<Rightarrow> q\<lparr>isProcessingQueue := False, loops := take i (loops q) @ drop (Suc i) (loops q)\<rparr>
      | cmd # rest \<Rightarrow>
          q\<lparr>commandQueue := rest,
            loops := take i (loops q) @ [awaiting_command cmd] @ drop (Suc i) (loops q),
            history := applied cmd (clock q) # history q\<rparr>)"

definition processCommandQueue :: "queue_state \<Rightarrow> queue_state" where
  "processCommandQueue q =
     (if isProcessingQueue q then q
      else loop_head (length (loops q)) (q\<lparr>isProcessingQueue := True\<rparr>))"

definition queueCapabilityCommand :: "string \<Rightarrow> jsval \<Rightarrow> queue_state \<Rightarrow> queue_state" where
  "queueCapabilityCommand capId v q =
     (let q1 = q\<lparr>commandQueue :=
                   commandQueue q @ [\<lparr>capabilityId = capId, cmd_value = v, timestamp = clock q\<rparr>]\<rparr>
      in if \<not> isProcessingQueue q1 then processCommandQueue q1 else q1)"

text \<open>The rest of the loop body after \<open>await this.triggerCapabilityListener(...)\<close> has
  resolved or rejected for the activation at position \<open>i\<close>.\<close>

definition after_command :: "nat \<Rightarrow> command \<Rightarrow> outcome \<Rightarrow> queue_state \<Rightarrow> queue_state" where
  "after_command i cmd result q =
     (let q1 = q\<lparr>history := settled cmd result (clock q) # history q\<rparr>
      in if length (commandQueue q1) > 0
         then q1\<lparr>loops := (loops q1)[i := awaiting_delay (clock q1 + COMMAND_DELAY_MS)]\<rparr>
         else loop_head i q1)"

text \<open>
  The events of the queue: a caller enqueues, the host finishes the command an activation
  waits for, or the delay an activation waits for is over. An event that cannot happen in
  the state (no such activation, an activation waiting for something else, a delay that is
  not over, a time in the past) gives \<open>None\<close>.
\<close>

datatype queue_event = enqueue string jsval | command_done nat outcome | delay_done nat

definition queue_step :: "nat \<times> queue_event \<Rightarrow> queue_state \<Rightarrow> queue_state option" where
  "queue_step ev q =
     (let now = fst ev
      in if now < clock q then None
         else
           let q1 = q\<lparr>clock := now\<rparr>
           in case snd ev of
                enqueue capId v \<Rightarrow> Some (queueCapabilityCommand capId v q1)
              | command_done i result \<Rightarrow>
                  if i < length (loops q1) then
                    (case loops q1 ! i of
                       awaiting_command cmd \<Rightarrow> Some (after_command i cmd result q1)
                     | awaiting_delay due \<Rightarrow> None)
                  else None
              | delay_done i \<Rightarrow>
                  if i < length (loops q1) then
                    (case loops q1 ! i of
                       awaiting_command cmd \<Rightarrow> None
                     | awaiting_delay due \<Rightarrow> if due \<le> now then Some (loop_head i q1) else None)
                  else None)"

fun queue_run :: "(nat \<times> queue_event) list \<Rightarrow> queue_state \<Rightarrow> queue_state option" where
  "queue_run [] q = Some q"
| "queue_run (ev # evs) q = (case queue_step ev q of None \<Rightarrow> None | Some q' \<Rightarrow> queue_run evs q')"


section \<open>Example configurations\<close>

text \<open>
  A host on which every capability call succeeds, with an empty manifest and a base class
  without a \<open>warning\<close> method. The strings it converts to numbers are the empty string
  and strings of decimal digits, and it meets no other string where a number is expected;
  its numbers are far enough from the bound for \<open>abs_diff_below_hundredth\<close> to be the exact
  comparison.
\<close>

definition reliable_host :: host where
  "reliable_host =
     \<lparr>addCapability_fails = (\<lambda>c. False), removeCapability_fails = (\<lambda>c. False),
      setCapabilityValue_fails = (\<lambda>c. False), registerCapability_throws = (\<lambda>c cc. None),
      manifest_capabilities = [],
      StringToNumber = (\<lambda>s. if list_all is_digit s then Some (of_nat (parseInt10 s)) else None),
      warning_defined = False,
      abs_diff_below_hundredth = (\<lambda>a b. \<bar>a - b\<bar> < 1 / 100)\<rparr>"

text \<open>The same host with a \<open>registerCapability\<close> that throws an error that is no timeout,
  and the same host with a base class that has a \<open>warning\<close> method.\<close>

definition rejecting_host :: host where
  "rejecting_host = reliable_host\<lparr>registerCapability_throws := (\<lambda>c cc. Some ''rejected'')\<rparr>"

definition warning_host :: host where
  "warning_host = reliable_host\<lparr>warning_defined := True\<rparr>"

text \<open>A multilevel endpoint and a binary endpoint whose \<open>GET\<close> has the given result.\<close>

definition dimmer_endpoint :: "get_result \<Rightarrow> endpoint" where
  "dimmer_endpoint r =
     \<lparr>deviceClassGeneric = ''GENERIC_TYPE_SWITCH_MULTILEVEL'',
      COMMAND_CLASS_SWITCH_MULTILEVEL = Some (CC (Some r)),
      COMMAND_CLASS_SWITCH_BINARY = None\<rparr>"

definition switch_endpoint :: "get_result \<Rightarrow> endpoint" where
  "switch_endpoint r =
     \<lparr>deviceClassGeneric = ''GENERIC_TYPE_SWITCH_BINARY'',
      COMMAND_CLASS_SWITCH_MULTILEVEL = None,
      COMMAND_CLASS_SWITCH_BINARY = Some (CC (Some r))\<rparr>"

text \<open>A device with the given Registry and capabilities, nothing persisted or triggered.\<close>

definition device_with :: "endpoint_types \<Rightarrow> (string \<times> jsval) list \<Rightarrow> device" where
  "device_with reg caps =
     \<lparr>endpointTypes = reg, capabilities = caps, storeValue = None, triggered = [], warnings = []\<rparr>"

text \<open>The multilevel report with current value 50.\<close>

definition report_50 :: get_result where
  "report_50 = Resolves (Object [(''Current Value'', JNum 50)])"

text \<open>A node whose root device has both command classes, with the given topology.\<close>

definition node_with :: "(nat \<times> endpoint) list \<Rightarrow> node" where
  "node_with endpoints =
     \<lparr>MultiChannelNodes = endpoints, root_SWITCH_MULTILEVEL = True, root_SWITCH_BINARY = True\<rparr>"

section \<open>Properties the claims speak about\<close>

text \<open>
  The Registry/control consistency of one endpoint, in the words of the specification: a
  switch has its on/off control and no dim control, a dimmer has both; an endpoint with no
  type or the type \<open>null\<close> is not constrained.
\<close>

definition projection_consistent :: "device \<Rightarrow> nat \<Rightarrow> bool" where
  "projection_consistent s endpointNum =
     (case map_of (endpointTypes s) endpointNum of
        Some (Some SWITCH) \<Rightarrow>
          hasCapability s (onoffCap endpointNum) \<and> \<not> hasCapability s (dimCap endpointNum)
      | Some (Some DIMMER) \<Rightarrow>
          hasCapability s (onoffCap endpointNum) \<and> hasCapability s (dimCap endpointNum)
      | _ \<Rightarrow> True)"

definition controls_absent :: "device \<Rightarrow> nat \<Rightarrow> bool" where
  "controls_absent s endpointNum =
     (\<not> hasCapability s (onoffCap endpointNum) \<and> \<not> hasCapability s (dimCap endpointNum))"

text \<open>
  The operations of the engine that change the Registry or the controls, each with the
  host behaviour and the node it meets, and a run of such operations.
\<close>

datatype engine_op =
    sync_one host nat "endpoint option"
  | sync_all host node
  | sync_by_type host device_type "node option"
  | discover_all host node
  | check_health host "node option"
  | cleanup_orphaned host

fun engine_step :: "revision \<Rightarrow> engine_op \<Rightarrow> device \<Rightarrow> device" where
  "engine_step rv (sync_one h endpointNum endpoint) s = syncOneEndpointState h endpointNum endpoint s"
| "engine_step rv (sync_all h nd) s = syncAllEndpointStates h nd s"
| "engine_step rv (sync_by_type h deviceType this_node) s = syncEndpointsByType h deviceType this_node s"
| "engine_step rv (discover_all h nd) s = discoverAllEndpoints rv h nd s"
| "engine_step rv (check_health h this_node) s = snd (checkDeviceHealth rv h this_node s)"
| "engine_step rv (cleanup_orphaned h) s = cleanupOrphanedEndpoints h s"

definition engine_run :: "revision \<Rightarrow> engine_op list \<Rightarrow> device \<Rightarrow> device" where
  "engine_run rv ops s = fold (engine_step rv) ops s"

text \<open>The operations that can run discovery.\<close>

fun is_discovery :: "engine_op \<Rightarrow> bool" where
  "is_discovery (discover_all h nd) = True"
| "is_discovery (check_health h this_node) = True"
| "is_discovery _ = False"

text \<open>
  Along a run, the controls of an endpoint are absent in every state up to the first
  discovery step that leaves the endpoint classified.
\<close>

fun absent_until_reclassified :: "revision \<Rightarrow> nat \<Rightarrow> engine_op list \<Rightarrow> device \<Rightarrow> bool" where
  "absent_until_reclassified rv endpointNum [] s = controls_absent s endpointNum"
| "absent_until_reclassified rv endpointNum (opn # ops) s =
     (controls_absent s endpointNum
      \<and> ((is_discovery opn \<and> classified (engine_step rv opn s) endpointNum)
         \<or> absent_until_reclassified rv endpointNum ops (engine_step rv opn s)))"

text \<open>
  The timer table of the debouncer holds no timer, or one timer whose handle is the one in
  \<open>this._syncTimeout\<close>.
\<close>

definition single_shared_timer :: "debouncer \<Rightarrow> bool" where
  "single_shared_timer d =
     (case timers d of [] \<Rightarrow> True | t # ts \<Rightarrow> ts = [] \<and> syncTimeout d = Some (fst t))"

text \<open>
  Readings of the queue's history. The commands applied so far and the settlements of
  their futures, oldest first; the commands enqueued by a list of events, in the order of
  the events, each with the time of its event as timestamp.
\<close>

fun applied_of :: "history_entry \<Rightarrow> command list" where
  "applied_of (applied cmd t) = [cmd]"
| "applied_of (settled cmd result t) = []"

fun settled_of :: "history_entry \<Rightarrow> (command \<times> outcome) list" where
  "settled_of (settled cmd result t) = [(cmd, result)]"
| "settled_of (applied cmd t) = []"

definition applied_commands :: "queue_state \<Rightarrow> command list" where
  "applied_commands q = concat (map applied_of (rev (history q)))"

definition settlements :: "queue_state \<Rightarrow> (command \<times> outcome) list" where
  "settlements q = concat (map settled_of (rev (history q)))"

fun enqueued_by :: "nat \<times> queue_event \<Rightarrow> command list" where
  "enqueued_by (t, enqueue capId v) = [\<lparr>capabilityId = capId, cmd_value = v, timestamp = t\<rparr>]"
| "enqueued_by (t, command_done i result) = []"
| "enqueued_by (t, delay_done i) = []"

definition enqueued :: "(nat \<times> queue_event) list \<Rightarrow> command list" where
  "enqueued evs = concat (map enqueued_by evs)"

text \<open>
  One at a time, on a history (most recent entry first): a command is applied only when
  every command applied before it has been settled, and what is settled is the command
  applied last.
\<close>

fun one_at_a_time :: "history_entry list \<Rightarrow> bool" where
  "one_at_a_time [] = True"
| "one_at_a_time [applied cmd t] = True"
| "one_at_a_time (applied cmd t # settled cmd' result t' # rest) =
     one_at_a_time (settled cmd' result t' # rest)"
| "one_at_a_time (applied cmd t # applied cmd' t' # rest) = False"
| "one_at_a_time (settled cmd result t # applied cmd' t' # rest) =
     (cmd = cmd' \<and> t' \<le> t \<and> one_at_a_time (applied cmd' t' # rest))"
| "one_at_a_time (settled cmd result t # settled cmd' result' t' # rest) = False"
| "one_at_a_time [settled cmd result t] = False"

text \<open>
  The spacing as the specification states it: every command but the first is applied at
  least \<open>COMMAND_DELAY_MS\<close> after the command before it was settled.
\<close>

fun strictly_spaced :: "history_entry list \<Rightarrow> bool" where
  "strictly_spaced [] = True"
| "strictly_spaced [e] = True"
| "strictly_spaced (applied cmd t # settled cmd' result t' # rest) =
     (t' + COMMAND_DELAY_MS \<le> t \<and> strictly_spaced (settled cmd' result t' # rest))"
| "strictly_spaced (applied cmd t # applied cmd' t' # rest) = strictly_spaced (applied cmd' t' # rest)"
| "strictly_spaced (settled cmd result t # e # rest) = strictly_spaced (e # rest)"

text \<open>
  The spacing of the code: a command is applied at least \<open>COMMAND_DELAY_MS\<close> after the
  command before it was settled, unless it was enqueued only after that command was
  settled.
\<close>

fun spaced :: "history_entry list \<Rightarrow> bool" where
  "spaced [] = True"
| "spaced [e] = True"
| "spaced (applied cmd t # settled cmd' result t' # rest) =
     ((t' + COMMAND_DELAY_MS \<le> t \<or> t' \<le> timestamp cmd)
      \<and> spaced (settled cmd' result t' # rest))"
| "spaced (applied cmd t # applied cmd' t' # rest) = spaced (applied cmd' t' # rest)"
| "spaced (settled cmd result t # e # rest) = spaced (e # rest)"

text \<open>
  How the suspended activations, the flag and the end of the history fit together: no
  activation, the flag clear, the queue empty and nothing pending; or one activation,
  the flag set, waiting for the command applied last or for the delay started when the
  last command was settled, with a command in the queue.
\<close>

definition drain_consistent :: "queue_state \<Rightarrow> bool" where
  "drain_consistent q =
     (case loops q of
        [] \<Rightarrow>
          \<not> isProcessingQueue q \<and> commandQueue q = []
          \<and> (case history q of
                [] \<Rightarrow> True
              | applied cmd t # rest \<Rightarrow> False
              | settled cmd result t # rest \<Rightarrow> t \<le> clock q)
      | [awaiting_command cmd] \<Rightarrow>
          isProcessingQueue q
          \<and> (case history q of
                applied cmd' t # rest \<Rightarrow> cmd' = cmd \<and> t \<le> clock q
              | _ \<Rightarrow> False)
      | [awaiting_delay due] \<Rightarrow>
          isProcessingQueue q \<and> commandQueue q \<noteq> []
          \<and> (case history q of
                settled cmd result t # rest \<Rightarrow> due = t + COMMAND_DELAY_MS \<and> t \<le> clock q
              | _ \<Rightarrow> False)
      | _ \<Rightarrow> False)"

text \<open>
  Letting the drain loop run with no further enqueue: the command the first activation
  waits for finishes with the result the host has for it, a delay it waits for passes,
  until no activation is left.
\<close>

definition drain_weight :: "queue_state \<Rightarrow> nat" where
  "drain_weight q =
     2 * length (commandQueue q)
     + sum_list (map (\<lambda>l. case l of awaiting_command cmd \<Rightarrow> 2 | awaiting_delay due \<Rightarrow> 1) (loops q))"

function drain :: "(command \<Rightarrow> outcome) \<Rightarrow> queue_state \<Rightarrow> queue_state" where
  "drain result_of q =
     (case loops q of
        [] \<Rightarrow> q
      | awaiting_command cmd # others \<Rightarrow>
          (case queue_step (clock q, command_done 0 (result_of cmd)) q of
             None \<Rightarrow> q
           | Some q' \<Rightarrow> drain result_of q')
      | awaiting_delay due # others \<Rightarrow>
          (case queue_step (max (clock q) due, delay_done 0) q of
             None \<Rightarrow> q
           | Some q' \<Rightarrow> drain result_of q'))"
  by pat_completeness auto
termination
  apply (relation "measure (\<lambda>(result_of, q). drain_weight q)")
    apply simp
   apply (case_tac "commandQueue q")
    apply (auto simp: queue_step_def after_command_def loop_head_def drain_weight_def Let_def split: if_splits)[2]
  apply (case_tac "commandQueue q")
   apply (auto simp: queue_step_def after_command_def loop_head_def drain_weight_def Let_def split: if_splits)
  done

declare drain.simps [simp del]

text \<open>What every reachable state of the queue satisfies.\<close>

definition queue_invariant :: "queue_state \<Rightarrow> bool" where
  "queue_invariant q = (drain_consistent q \<and> one_at_a_time (history q) \<and> spaced (history q))"


text \<open>Two commands of the action \<open>set_endpoint_dim\<close>, the second enqueued at time 5 or at
  time 10.\<close>

definition cmd_dim :: command where
  "cmd_dim = \<lparr>capabilityId = ''dim.ep1'', cmd_value = JNum (1 / 2), timestamp = 0\<rparr>"

definition cmd_on :: command where
  "cmd_on = \<lparr>capabilityId = ''onoff.ep1'', cmd_value = JBool True, timestamp = 5\<rparr>"

definition cmd_on_late :: command where
  "cmd_on_late = \<lparr>capabilityId = ''onoff.ep1'', cmd_value = JBool True, timestamp = 10\<rparr>"

section \<open>Basic facts\<close>

subsection \<open>Capability identifiers\<close>

lemma digit_char_inj: "a < 10 \<Longrightarrow> b < 10 \<Longrightarrow> digit_char a = digit_char b \<Longrightarrow> a = b"
proof -
  assume a: "a < 10" and b: "b < 10" and e: "digit_char a = digit_char b"
  have d: "distinct ''0123456789''" by simp
  have "a < length ''0123456789''" "b < length ''0123456789''" using a b by simp_all
  with d e show ?thesis unfolding digit_char_def by (simp only: nth_eq_iff_index_eq)
qed

lemma dec_not_Nil: "dec n \<noteq> []"
  by (subst dec.simps) simp

lemma dec_inj: "dec n = dec m \<Longrightarrow> n = m"
proof (induction n arbitrary: m rule: dec.induct)
  case (1 n)
  show ?case
  proof (cases "n < 10")
    case True
    show ?thesis
    proof (cases "m < 10")
      case mt: True
      from "1.prems" True mt have "digit_char n = digit_char m"
        by (simp add: dec.simps[of n] dec.simps[of m])
      with True mt show ?thesis by (simp add: digit_char_inj)
    next
      case mf: False
      from "1.prems" True mf have "[digit_char n] = dec (m div 10) @ [digit_char (m mod 10)]"
        by (simp add: dec.simps[of n] dec.simps[of m])
      then have "dec (m div 10) = []" by simp
      then show ?thesis by (simp add: dec_not_Nil)
    qed
  next
    case False
    show ?thesis
    proof (cases "m < 10")
      case mt: True
      from "1.prems" False mt have "dec (n div 10) @ [digit_char (n mod 10)] = [digit_char m]"
        by (simp add: dec.simps[of n] dec.simps[of m])
      then have "dec (n div 10) = []" by simp
      then show ?thesis by (simp add: dec_not_Nil)
    next
      case mf: False
      from "1.prems" False mf
      have eq: "dec (n div 10) @ [digit_char (n mod 10)] = dec (m div 10) @ [digit_char (m mod 10)]"
        by (simp add: dec.simps[of n] dec.simps[of m])
      then have a: "dec (n div 10) = dec (m div 10)" and b: "digit_char (n mod 10) = digit_char (m mod 10)"
        by simp_all
      from "1.IH"[OF False a] have c: "n div 10 = m div 10" .
      have d: "n mod 10 = m mod 10" by (rule digit_char_inj[OF _ _ b]) simp_all
      from c d show ?thesis by (metis div_mult_mod_eq)
    qed
  qed
qed

lemma onoffCap_inj [simp]: "onoffCap n = onoffCap m \<longleftrightarrow> n = m"
  by (auto simp: onoffCap_def dest: dec_inj)

lemma dimCap_inj [simp]: "dimCap n = dimCap m \<longleftrightarrow> n = m"
  by (auto simp: dimCap_def dest: dec_inj)

lemma onoffCap_neq_dimCap [simp]: "onoffCap n \<noteq> dimCap m" "dimCap m \<noteq> onoffCap n"
  by (simp_all add: onoffCap_def dimCap_def)

lemma onoffCap_not_Nil [simp]: "onoffCap n \<noteq> []" and dimCap_not_Nil [simp]: "dimCap n \<noteq> []"
  by (simp_all add: onoffCap_def dimCap_def)


subsection \<open>Host capability primitives\<close>

lemma setCapabilityValue_fields [simp]:
  "endpointTypes (setCapabilityValue h c v s) = endpointTypes s"
  "storeValue (setCapabilityValue h c v s) = storeValue s"
  "triggered (setCapabilityValue h c v s) = triggered s"
  "warnings (setCapabilityValue h c v s) = warnings s"
  by (simp_all add: setCapabilityValue_def)

lemma ensureCapability_fields [simp]:
  "endpointTypes (ensureCapability h c s) = endpointTypes s"
  "storeValue (ensureCapability h c s) = storeValue s"
  "triggered (ensureCapability h c s) = triggered s"
  "warnings (ensureCapability h c s) = warnings s"
  by (simp_all add: ensureCapability_def)

lemma removeIfPresent_fields [simp]:
  "endpointTypes (removeIfPresent h c s) = endpointTypes s"
  "storeValue (removeIfPresent h c s) = storeValue s"
  "triggered (removeIfPresent h c s) = triggered s"
  "warnings (removeIfPresent h c s) = warnings s"
  by (simp_all add: removeIfPresent_def)

lemma removeEndpointCapabilities_fields [simp]:
  "endpointTypes (removeEndpointCapabilities h n s) = endpointTypes s"
  "storeValue (removeEndpointCapabilities h n s) = storeValue s"
  "triggered (removeEndpointCapabilities h n s) = triggered s"
  "warnings (removeEndpointCapabilities h n s) = warnings s"
  by (simp_all add: removeEndpointCapabilities_def)

lemma triggerEndpoint_fields [simp]:
  "endpointTypes (triggerEndpoint t s) = endpointTypes s"
  "storeValue (triggerEndpoint t s) = storeValue s"
  "capabilities (triggerEndpoint t s) = capabilities s"
  "warnings (triggerEndpoint t s) = warnings s"
  by (simp_all add: triggerEndpoint_def)

lemma hasCapability_triggerEndpoint [simp]:
  "hasCapability (triggerEndpoint t s) c = hasCapability s c"
  "getCapabilityValue (triggerEndpoint t s) c = getCapabilityValue s c"
  by (simp_all add: hasCapability_def getCapabilityValue_def)

lemma caps_setCapabilityValue:
  "map_of (capabilities (setCapabilityValue h c v s)) =
     (if setCapabilityValue_fails h c then map_of (capabilities s) else (map_of (capabilities s))(c \<mapsto> v))"
  by (simp add: setCapabilityValue_def update_conv')

lemma caps_ensureCapability:
  "map_of (capabilities (ensureCapability h c s)) =
     (if hasCapability s c \<or> addCapability_fails h c then map_of (capabilities s)
      else (map_of (capabilities s))(c \<mapsto> JNull))"
  by (simp add: ensureCapability_def update_conv')

lemma caps_removeIfPresent:
  "map_of (capabilities (removeIfPresent h c s)) =
     (if removeCapability_fails h c then map_of (capabilities s)
      else (map_of (capabilities s))(c := None))"
  by (auto simp add: removeIfPresent_def delete_conv' hasCapability_def)

lemma setOnOff_fields [simp]:
  "endpointTypes (setOnOff h c v n s) = endpointTypes s"
  "storeValue (setOnOff h c v n s) = storeValue s"
  "warnings (setOnOff h c v n s) = warnings s"
  by (simp_all add: setOnOff_def Let_def)

lemma setDim_fields [simp]:
  "endpointTypes (setDim h c v n s) = endpointTypes s"
  "storeValue (setDim h c v n s) = storeValue s"
  "warnings (setDim h c v n s) = warnings s"
  by (simp_all add: setDim_def Let_def)

lemma caps_setOnOff:
  "map_of (capabilities (setOnOff h c v n s)) =
     (if c \<noteq> [] \<and> hasCapability s c \<and> \<not> setCapabilityValue_fails h c
      then (map_of (capabilities s))(c \<mapsto> JBool v) else map_of (capabilities s))"
  by (simp add: setOnOff_def Let_def caps_setCapabilityValue)

text \<open>Applying the value that is already stored changes nothing.\<close>

lemma setOnOff_same:
  "hasCapability s c \<Longrightarrow> getCapabilityValue s c = JBool v \<Longrightarrow> setOnOff h c v n s = s"
  by (auto simp: setOnOff_def Let_def setCapabilityValue_def hasCapability_def getCapabilityValue_def
      update_triv split: option.splits)

lemma setDim_same:
  "hasCapability s c \<Longrightarrow> getCapabilityValue s c = JNum (max 0 (min 1 (case v of None \<Rightarrow> 0 | Some x \<Rightarrow> x)))
   \<Longrightarrow> setDim h c v n s = s"
  by (auto simp: setDim_def Let_def setCapabilityValue_def hasCapability_def getCapabilityValue_def
      update_triv split: option.splits)


lemma hasCapability_ensureCapability [simp]:
  "hasCapability (ensureCapability h c s) c' = (hasCapability s c' \<or> (c' = c \<and> \<not> addCapability_fails h c))"
  by (auto simp: hasCapability_def caps_ensureCapability)

lemma hasCapability_removeIfPresent [simp]:
  "hasCapability (removeIfPresent h c s) c' = (hasCapability s c' \<and> (c' = c \<longrightarrow> removeCapability_fails h c))"
  by (auto simp: hasCapability_def caps_removeIfPresent)

lemma hasCapability_setOnOff [simp]:
  "hasCapability (setOnOff h c v n s) c' = hasCapability s c'"
  by (auto simp: hasCapability_def caps_setOnOff)

lemma caps_setDim:
  "map_of (capabilities (setDim h c v n s)) =
     (if c \<noteq> [] \<and> 1 \<le> n \<and> hasCapability s c \<and> \<not> setCapabilityValue_fails h c
      then (map_of (capabilities s))(c \<mapsto> JNum (max 0 (min 1 (case v of None \<Rightarrow> 0 | Some x \<Rightarrow> x))))
      else map_of (capabilities s))"
  by (simp add: setDim_def Let_def caps_setCapabilityValue)

lemma hasCapability_setDim [simp]:
  "hasCapability (setDim h c v n s) c' = hasCapability s c'"
  by (auto simp: hasCapability_def caps_setDim)

lemma getCapabilityValue_ensureCapability:
  "getCapabilityValue (ensureCapability h c s) c' =
     (if c' = c \<and> \<not> hasCapability s c \<and> \<not> addCapability_fails h c then JNull
      else getCapabilityValue s c')"
  by (auto simp: getCapabilityValue_def caps_ensureCapability)

lemma getCapabilityValue_removeIfPresent:
  "c' \<noteq> c \<Longrightarrow> getCapabilityValue (removeIfPresent h c s) c' = getCapabilityValue s c'"
  by (auto simp: getCapabilityValue_def caps_removeIfPresent)

lemma getCapabilityValue_setOnOff:
  "getCapabilityValue (setOnOff h c v n s) c' =
     (if c' = c \<and> c \<noteq> [] \<and> hasCapability s c \<and> \<not> setCapabilityValue_fails h c then JBool v
      else getCapabilityValue s c')"
  by (auto simp: getCapabilityValue_def caps_setOnOff)

lemma getCapabilityValue_setDim:
  "getCapabilityValue (setDim h c v n s) c' =
     (if c' = c \<and> c \<noteq> [] \<and> 1 \<le> n \<and> hasCapability s c \<and> \<not> setCapabilityValue_fails h c
      then JNum (max 0 (min 1 (case v of None \<Rightarrow> 0 | Some x \<Rightarrow> x)))
      else getCapabilityValue s c')"
  by (auto simp: getCapabilityValue_def caps_setDim)

lemma ensureCapability_stable:
  "hasCapability s c \<or> addCapability_fails h c \<Longrightarrow> ensureCapability h c s = s"
  by (auto simp: ensureCapability_def)

lemma removeIfPresent_stable:
  "\<not> hasCapability s c \<or> removeCapability_fails h c \<Longrightarrow> removeIfPresent h c s = s"
  by (auto simp: removeIfPresent_def)

lemma setOnOff_stable:
  "c = [] \<or> \<not> hasCapability s c \<or> getCapabilityValue s c = JBool v \<Longrightarrow> setOnOff h c v n s = s"
  by (auto simp: setOnOff_def Let_def setCapabilityValue_def hasCapability_def getCapabilityValue_def
      update_triv split: option.splits)

lemma setDim_stable:
  "c = [] \<or> \<not> hasCapability s c \<or> n < 1
     \<or> getCapabilityValue s c = JNum (max 0 (min 1 (case v of None \<Rightarrow> 0 | Some x \<Rightarrow> x)))
   \<Longrightarrow> setDim h c v n s = s"
  by (auto simp: setDim_def Let_def setCapabilityValue_def hasCapability_def getCapabilityValue_def
      update_triv split: option.splits)

lemma syncDimmerState_idem:
  assumes "oc \<noteq> dc" "\<not> setCapabilityValue_fails h oc" "\<not> setCapabilityValue_fails h dc"
  shows "syncDimmerState h n ep oc dc (snd (syncDimmerState h n ep oc dc s)) = syncDimmerState h n ep oc dc s"
proof -
  let ?s2 = "ensureCapability h dc (ensureCapability h oc s)"
  have e2: "ensureCapability h dc (ensureCapability h oc ?s2) = ?s2"
    by (simp add: ensureCapability_stable)
  show ?thesis
  proof (cases "COMMAND_CLASS_SWITCH_MULTILEVEL ep")
    case None
    then show ?thesis by (simp add: syncDimmerState_def e2)
  next
    case (Some c)
    then obtain g where c: "c = CC g" by (cases c) auto
    show ?thesis
    proof (cases g)
      case None
      with Some c show ?thesis by (simp add: syncDimmerState_def e2)
    next
      case g: (Some r)
      show ?thesis
      proof (cases r)
        case (Rejects m)
        with Some c g show ?thesis by (simp add: syncDimmerState_def e2)
      next
        case (Resolves rep)
        show ?thesis
        proof (cases "isValidReport rep ''Current Value''")
          case False
          with Some c g Resolves show ?thesis by (simp add: syncDimmerState_def e2)
        next
          case True
          let ?v = "report_field rep ''Current Value''"
          let ?s3 = "setOnOff h oc (js_gt h ?v 0) n ?s2"
          let ?s4 = "setDim h dc (js_div h ?v Z_WAVE_MAX_DIM_VALUE) n ?s3"
          have r1: "snd (syncDimmerState h n ep oc dc s) = ?s4"
            using Some c g Resolves True by (simp add: syncDimmerState_def Let_def)
          have e4: "ensureCapability h dc (ensureCapability h oc ?s4) = ?s4"
            by (simp add: ensureCapability_stable)
          have o4: "setOnOff h oc (js_gt h ?v 0) n ?s4 = ?s4"
            by (rule setOnOff_stable)
               (use assms in \<open>auto simp: getCapabilityValue_setDim getCapabilityValue_setOnOff simp del: hasCapability_ensureCapability\<close>)
          have d4: "setDim h dc (js_div h ?v Z_WAVE_MAX_DIM_VALUE) n ?s4 = ?s4"
            by (rule setDim_stable)
               (use assms in \<open>auto simp: getCapabilityValue_setDim getCapabilityValue_setOnOff simp del: hasCapability_ensureCapability\<close>)
          show ?thesis
            unfolding r1 using Some c g Resolves True
            by (simp add: syncDimmerState_def Let_def e4 o4 d4)
        qed
      qed
    qed
  qed
qed

subsection \<open>Synchronising twice\<close>

lemma syncSwitchState_idem:
  assumes "oc \<noteq> dc" "\<not> setCapabilityValue_fails h oc"
  shows "syncSwitchState h n ep oc dc (snd (syncSwitchState h n ep oc dc s)) = syncSwitchState h n ep oc dc s"
proof -
  let ?s2 = "ensureCapability h oc (removeIfPresent h dc s)"
  have e2: "ensureCapability h oc (removeIfPresent h dc ?s2) = ?s2"
    using assms(1) by (auto simp: ensureCapability_stable removeIfPresent_stable)
  show ?thesis
  proof (cases "COMMAND_CLASS_SWITCH_BINARY ep")
    case None
    then show ?thesis by (simp add: syncSwitchState_def e2)
  next
    case (Some c)
    then obtain g where c: "c = CC g" by (cases c) auto
    show ?thesis
    proof (cases g)
      case None
      with Some c show ?thesis by (simp add: syncSwitchState_def e2)
    next
      case g: (Some r)
      show ?thesis
      proof (cases r)
        case (Rejects m)
        with Some c g show ?thesis by (simp add: syncSwitchState_def e2)
      next
        case (Resolves rep)
        show ?thesis
        proof (cases "isValidReport rep ''Value''")
          case False
          with Some c g Resolves show ?thesis by (simp add: syncSwitchState_def e2)
        next
          case True
          let ?b = "report_field rep ''Value'' = JStr ''on/enable'' \<or> report_field rep ''Value'' = JNum 1"
          let ?s3 = "setOnOff h oc ?b n ?s2"
          have r1: "snd (syncSwitchState h n ep oc dc s) = ?s3"
            using Some c g Resolves True by (simp add: syncSwitchState_def Let_def)
          have e3: "ensureCapability h oc (removeIfPresent h dc ?s3) = ?s3"
            using assms(1) by (auto simp: ensureCapability_stable removeIfPresent_stable)
          have o3: "setOnOff h oc ?b n ?s3 = ?s3"
            by (rule setOnOff_stable)
               (use assms in \<open>auto simp: getCapabilityValue_setOnOff simp del: hasCapability_ensureCapability hasCapability_removeIfPresent\<close>)
          show ?thesis
            unfolding r1 using Some c g Resolves True
            by (simp add: syncSwitchState_def Let_def e3 o3)
        qed
      qed
    qed
  qed
qed

lemma syncDimmerState_fields [simp]:
  "endpointTypes (snd (syncDimmerState h n ep oc dc s)) = endpointTypes s"
  "storeValue (snd (syncDimmerState h n ep oc dc s)) = storeValue s"
  "warnings (snd (syncDimmerState h n ep oc dc s)) = warnings s"
  by (simp_all add: syncDimmerState_def Let_def split: option.splits command_class.splits get_result.splits)

lemma syncSwitchState_fields [simp]:
  "endpointTypes (snd (syncSwitchState h n ep oc dc s)) = endpointTypes s"
  "storeValue (snd (syncSwitchState h n ep oc dc s)) = storeValue s"
  "warnings (snd (syncSwitchState h n ep oc dc s)) = warnings s"
  by (simp_all add: syncSwitchState_def Let_def split: option.splits command_class.splits get_result.splits)

lemma snd_sync_try:
  "snd (sync_try h n ep t s) =
     (case t of DIMMER \<Rightarrow> snd (syncDimmerState h n ep (onoffCap n) (dimCap n) s)
      | SWITCH \<Rightarrow> snd (syncSwitchState h n ep (onoffCap n) (dimCap n) s))"
  by (cases t) (simp_all add: sync_try_def case_prod_beta split: sum.splits bool.splits)

lemma sync_try_fields [simp]:
  "endpointTypes (snd (sync_try h n ep t s)) = endpointTypes s"
  "storeValue (snd (sync_try h n ep t s)) = storeValue s"
  "warnings (snd (sync_try h n ep t s)) = warnings s"
  by (cases t; simp add: snd_sync_try)+

lemma sync_try_idem:
  assumes "\<not> setCapabilityValue_fails h (onoffCap n)" "\<not> setCapabilityValue_fails h (dimCap n)"
  shows "sync_try h n ep t (snd (sync_try h n ep t s)) = sync_try h n ep t s"
proof (cases t)
  case DIMMER
  have "sync_try h n ep DIMMER (snd (syncDimmerState h n ep (onoffCap n) (dimCap n) s))
        = sync_try h n ep DIMMER s"
    using syncDimmerState_idem[of "onoffCap n" "dimCap n" h n ep s] assms
    by (simp add: sync_try_def)
  moreover have "snd (sync_try h n ep DIMMER s) = snd (syncDimmerState h n ep (onoffCap n) (dimCap n) s)"
    by (simp add: snd_sync_try)
  ultimately show ?thesis using DIMMER by simp
next
  case SWITCH
  have "sync_try h n ep SWITCH (snd (syncSwitchState h n ep (onoffCap n) (dimCap n) s))
        = sync_try h n ep SWITCH s"
    using syncSwitchState_idem[of "onoffCap n" "dimCap n" h n ep s] assms
    by (simp add: sync_try_def)
  moreover have "snd (sync_try h n ep SWITCH s) = snd (syncSwitchState h n ep (onoffCap n) (dimCap n) s)"
    by (simp add: snd_sync_try)
  ultimately show ?thesis using SWITCH by simp
qed

lemma demote_fields [simp]:
  "endpointTypes (demote h n s) = AList.update n None (endpointTypes s)"
  "storeValue (demote h n s) = Some (AList.update n None (endpointTypes s))"
  "triggered (demote h n s) = triggered s"
  "warnings (demote h n s) = warnings s"
  by (simp_all add: demote_def setStoreValue_def)

lemma removeEndpointCapabilities_idem:
  "removeEndpointCapabilities h n (removeEndpointCapabilities h n s) = removeEndpointCapabilities h n s"
  by (auto simp: removeEndpointCapabilities_def removeIfPresent_stable)

lemma syncOneEndpointState_idem:
  assumes "\<not> setCapabilityValue_fails h (onoffCap n)" "\<not> setCapabilityValue_fails h (dimCap n)"
  shows "syncOneEndpointState h n ep (syncOneEndpointState h n ep s) = syncOneEndpointState h n ep s"
proof (cases ep)
  case None
  then show ?thesis by (simp add: syncOneEndpointState_def removeEndpointCapabilities_idem)
next
  case (Some e)
  show ?thesis
  proof (cases "map_of (endpointTypes s) n")
    case None
    with Some show ?thesis by (simp add: syncOneEndpointState_def)
  next
    case ty: (Some ot)
    show ?thesis
    proof (cases ot)
      case None
      with Some ty show ?thesis by (simp add: syncOneEndpointState_def)
    next
      case t: (Some t)
      obtain r s1 where st: "sync_try h n e t s = (r, s1)" by (cases "sync_try h n e t s")
      have s1: "s1 = snd (sync_try h n e t s)" using st by simp
      have et: "endpointTypes s1 = endpointTypes s" unfolding s1 by simp
      have again: "sync_try h n e t s1 = (r, s1)"
        unfolding s1 using sync_try_idem[OF assms, of e t s] st by simp
      show ?thesis
      proof (cases r)
        case None
        with Some ty t st again et show ?thesis by (simp add: syncOneEndpointState_def)
      next
        case m: (Some msg)
        show ?thesis
        proof (cases "js_includes msg ''timeout''")
          case True
          with m Some ty t st again et show ?thesis by (simp add: syncOneEndpointState_def)
        next
          case False
          have "map_of (endpointTypes (demote h n s1)) n = Some None"
            by (simp add: update_conv')
          with False m Some ty t st show ?thesis by (simp add: syncOneEndpointState_def)
        qed
      qed
    qed
  qed
qed

lemmas cap_eval = onoffCap_def dimCap_def dec.simps digit_char_def
lemmas ex_defs = reliable_host_def dimmer_endpoint_def switch_endpoint_def device_with_def report_50_def
lemmas sync_defs = syncOneEndpointState_def sync_try_def syncDimmerState_def syncSwitchState_def
  demote_def removeEndpointCapabilities_def removeIfPresent_def ensureCapability_def
  setOnOff_def setDim_def setCapabilityValue_def triggerEndpoint_def hasCapability_def
  getCapabilityValue_def isValidReport_def report_field_def js_gt_def js_div_def ToNumber_def
  errorMsg_of_def setStoreValue_def Z_WAVE_MAX_DIM_VALUE_def startsWith_def


lemma setOnOff_triggers_le:
  "\<exists>ts. triggered (setOnOff h c v n s) = triggered s @ ts \<and> length ts \<le> 2"
  by (auto simp: setOnOff_def Let_def triggerEndpoint_def)

lemma setDim_triggers_le:
  "\<exists>ts. triggered (setDim h c v n s) = triggered s @ ts \<and> length ts \<le> 1"
  by (auto simp: setDim_def Let_def triggerEndpoint_def)

lemma syncDimmerState_triggers_le:
  "length (triggered (snd (syncDimmerState h n ep oc dc s))) \<le> length (triggered s) + 3"
proof -
  have *: "length (triggered (setDim h dc x n (setOnOff h oc v n s'))) \<le> length (triggered s') + 3" for x v s'
  proof -
    obtain ts where 1: "triggered (setOnOff h oc v n s') = triggered s' @ ts" "length ts \<le> 2"
      using setOnOff_triggers_le by blast
    obtain us where 2: "triggered (setDim h dc x n (setOnOff h oc v n s')) = triggered (setOnOff h oc v n s') @ us" "length us \<le> 1"
      using setDim_triggers_le by blast
    from 1 2 show ?thesis by simp
  qed
  show ?thesis
    using *[of _ _ "ensureCapability h dc (ensureCapability h oc s)"]
    by (simp add: syncDimmerState_def Let_def split: option.splits command_class.splits get_result.splits)
qed

lemma syncSwitchState_triggers_le:
  "length (triggered (snd (syncSwitchState h n ep oc dc s))) \<le> length (triggered s) + 3"
proof -
  have *: "length (triggered (setOnOff h oc v n s')) \<le> length (triggered s') + 3" for v s'
    using setOnOff_triggers_le[of h oc v n s'] by auto
  show ?thesis
    using *[of _ "ensureCapability h oc (removeIfPresent h dc s)"]
    by (simp add: syncSwitchState_def Let_def split: option.splits command_class.splits get_result.splits)
qed

lemma syncOneEndpointState_triggers_le:
  "length (triggered (syncOneEndpointState h n ep s)) \<le> length (triggered s) + 3"
proof -
  have *: "length (triggered (snd (sync_try h n e t s))) \<le> length (triggered s) + 3" for e t
    by (cases t) (simp_all add: snd_sync_try syncDimmerState_triggers_le syncSwitchState_triggers_le)
  show ?thesis
    unfolding syncOneEndpointState_def
    apply (simp split: option.splits prod.splits)
    using * by (metis snd_conv)
qed

subsection \<open>Capabilities after a synchronisation\<close>

lemma hasCapability_syncDimmerState:
  "hasCapability (snd (syncDimmerState h n ep oc dc s)) c =
     (hasCapability s c \<or> (c = oc \<and> \<not> addCapability_fails h oc) \<or> (c = dc \<and> \<not> addCapability_fails h dc))"
  by (auto simp: syncDimmerState_def Let_def split: option.splits command_class.splits get_result.splits)

lemma hasCapability_syncSwitchState:
  "hasCapability (snd (syncSwitchState h n ep oc dc s)) c =
     ((hasCapability s c \<and> (c = dc \<longrightarrow> removeCapability_fails h dc)) \<or> (c = oc \<and> \<not> addCapability_fails h oc))"
  by (auto simp: syncSwitchState_def Let_def split: option.splits command_class.splits get_result.splits)

lemma hasCapability_sync_try:
  "hasCapability (snd (sync_try h n ep t s)) c =
     (case t of
        DIMMER \<Rightarrow> hasCapability s c \<or> (c = onoffCap n \<and> \<not> addCapability_fails h (onoffCap n))
                    \<or> (c = dimCap n \<and> \<not> addCapability_fails h (dimCap n))
      | SWITCH \<Rightarrow> (hasCapability s c \<and> (c = dimCap n \<longrightarrow> removeCapability_fails h (dimCap n)))
                    \<or> (c = onoffCap n \<and> \<not> addCapability_fails h (onoffCap n)))"
  by (cases t) (simp_all add: snd_sync_try hasCapability_syncDimmerState hasCapability_syncSwitchState)

lemma invalid_report_not_timeout:
  "\<not> js_includes (errorMsg_of ''Invalid or missing report during sync'') ''timeout''"
  by (simp add: errorMsg_of_def startsWith_def)

subsection \<open>Health check and discovery\<close>

lemma discoveredCount_zero: "discoveredCount s = 0 \<longleftrightarrow> endpointTypes s = []"
  by (simp add: discoveredCount_def object_keys_def)

lemma capabilityCount_pos:
  "0 < capabilityCount s \<longleftrightarrow>
     (\<exists>c \<in> fst ` set (capabilities s). startsWith c ''onoff.ep'' \<or> startsWith c ''dim.ep'')"
  by (auto simp: capabilityCount_def filter_empty_conv)

lemma fold_preserves:
  assumes "\<And>x s. P s \<Longrightarrow> P (f x s)" "P s"
  shows "P (fold f xs s)"
  using assms(2) by (induction xs arbitrary: s) (simp_all add: assms(1))

lemma discoverOneEndpoint_warnings [simp]:
  "warnings (discoverOneEndpoint h n ep s) = warnings s"
  by (simp add: discoverOneEndpoint_def setStoreValue_def split: option.splits)

lemma registerEndpointCapabilities_part_000_warnings [simp]:
  "warnings (snd (registerEndpointCapabilities_part_000 h n t s)) = warnings s"
  by (cases t) (simp_all add: registerEndpointCapabilities_part_000_def Let_def split: option.splits)

lemma discoverOneEndpoint_part_000_warnings [simp]:
  "warnings (discoverOneEndpoint_part_000 h n ep s) = warnings s"
proof -
  have *: "warnings s1 = warnings s" if "registerEndpointCapabilities_part_000 h n t s = (r, s1)" for r s1 t
    using registerEndpointCapabilities_part_000_warnings[of h n t s] that by simp
  show ?thesis
    by (auto simp: discoverOneEndpoint_part_000_def setStoreValue_def Let_def * split: option.splits prod.splits)
qed

lemma cleanupAllEndpoints_warnings [simp]:
  "warnings (cleanupAllEndpoints h s) = warnings s"
proof -
  have "warnings (fold (removeIfPresent h) xs s') = warnings s'" for xs s'
    by (induction xs arbitrary: s') simp_all
  then show ?thesis by (simp add: cleanupAllEndpoints_def Let_def setStoreValue_def)
qed

lemma discoverAllEndpoints_warnings [simp]:
  "warnings (discoverAllEndpoints rv h nd s) = warnings s"
proof -
  have "warnings (fold (\<lambda>endpointNum s'.
                      if endpointNum < 1 then s'
                      else (case rv of
                              device_js \<Rightarrow>
                                discoverOneEndpoint h endpointNum (map_of eps endpointNum) s'
                            | part_000 \<Rightarrow>
                                discoverOneEndpoint_part_000 h endpointNum
                                  (map_of eps endpointNum) s')) xs s') = warnings s'" for xs s' eps
    by (induction xs arbitrary: s') (simp_all split: revision.splits)
  then show ?thesis by (simp add: discoverAllEndpoints_def Let_def)
qed

subsection \<open>The debounce timer\<close>

lemma run_due_timers_single:
  assumes "single_shared_timer d"
  shows "single_shared_timer (run_due_timers now d)"
proof (cases "timers d")
  case Nil
  then show ?thesis by (simp add: single_shared_timer_def run_due_timers_def)
next
  case (Cons t ts)
  with assms obtain handle due ty where t: "timers d = [(handle, due, ty)]" "syncTimeout d = Some handle"
    by (cases t) (auto simp: single_shared_timer_def)
  then show ?thesis
    by (cases "due \<le> now") (simp_all add: single_shared_timer_def run_due_timers_def)
qed

lemma rootListener_timers:
  assumes "single_shared_timer d"
  shows "timers (rootListener rv ty now d) = [(next_handle d, now + SYNC_DEBOUNCE_MS rv, ty)]
         \<and> syncTimeout (rootListener rv ty now d) = Some (next_handle d)"
  using assms
  by (auto simp: single_shared_timer_def rootListener_def clearTimeout_def setTimeout_def Let_def
      split: option.splits list.splits)

lemma rootListener_single: "single_shared_timer d \<Longrightarrow> single_shared_timer (rootListener rv ty now d)"
  using rootListener_timers[of d rv ty now] by (simp add: single_shared_timer_def)

lemma debounce_step_single:
  "single_shared_timer d \<Longrightarrow> single_shared_timer (debounce_step rv ev d)"
  by (cases "snd ev")
     (simp_all add: debounce_step_def Let_def multilevelListener_def binaryListener_def
        rootListener_single run_due_timers_single)

lemma run_due_timers_registered [simp]:
  "multilevelListener_registered (run_due_timers now d) = multilevelListener_registered d"
  "binaryListener_registered (run_due_timers now d) = binaryListener_registered d"
  "next_handle (run_due_timers now d) = next_handle d"
  by (simp_all add: run_due_timers_def)

lemma rootListener_registered [simp]:
  "multilevelListener_registered (rootListener rv ty now d) = multilevelListener_registered d"
  "binaryListener_registered (rootListener rv ty now d) = binaryListener_registered d"
  by (simp_all add: rootListener_def clearTimeout_def setTimeout_def Let_def split: option.splits)

lemma debounce_step_registered [simp]:
  "multilevelListener_registered (debounce_step rv ev d) = multilevelListener_registered d"
  "binaryListener_registered (debounce_step rv ev d) = binaryListener_registered d"
  by (cases "snd ev"; simp add: debounce_step_def Let_def multilevelListener_def binaryListener_def)+

lemma debounce_run_invariant:
  "single_shared_timer d \<Longrightarrow>
     single_shared_timer (debounce_run rv evs d)
     \<and> multilevelListener_registered (debounce_run rv evs d) = multilevelListener_registered d
     \<and> binaryListener_registered (debounce_run rv evs d) = binaryListener_registered d"
  unfolding debounce_run_def
  by (induction evs arbitrary: d) (simp_all add: debounce_step_single)

lemma registerRootDeviceListeners_single: "single_shared_timer (registerRootDeviceListeners nd)"
  by (simp add: single_shared_timer_def registerRootDeviceListeners_def)


lemmas debounce_defs = debounce_run_def debounce_step_def run_due_timers_def multilevelListener_def
  binaryListener_def rootListener_def setTimeout_def clearTimeout_def registerRootDeviceListeners_def
  node_with_def SYNC_DEBOUNCE_MS_def pending_types_def Let_def

subsection \<open>One endpoint at a time\<close>

lemma hasCapability_removeEndpointCapabilities:
  "hasCapability (removeEndpointCapabilities h n s) c =
     (hasCapability s c \<and> (c = dimCap n \<longrightarrow> removeCapability_fails h (dimCap n))
        \<and> (c = onoffCap n \<longrightarrow> removeCapability_fails h (onoffCap n)))"
  by (auto simp: removeEndpointCapabilities_def)

lemma hasCapability_demote:
  "hasCapability (demote h n s) c =
     (hasCapability s c \<and> (c = dimCap n \<longrightarrow> removeCapability_fails h (dimCap n))
        \<and> (c = onoffCap n \<longrightarrow> removeCapability_fails h (onoffCap n)))"
  by (simp add: demote_def setStoreValue_def hasCapability_def[of "_\<lparr>storeValue := _\<rparr>"]
        hasCapability_def[of "_\<lparr>endpointTypes := _\<rparr>"]
        hasCapability_removeEndpointCapabilities[unfolded hasCapability_def]
        removeEndpointCapabilities_def removeIfPresent_def)
     (auto simp: hasCapability_def delete_conv')

text \<open>The four shapes of the result of a synchronisation of one endpoint.\<close>

lemma syncOneEndpointState_cases:
  obtains (removed) "ep = None" "syncOneEndpointState h n ep s = removeEndpointCapabilities h n s"
  | (skipped) "\<not> classified s n" "syncOneEndpointState h n ep s = s"
  | (kept) e t where "ep = Some e" "map_of (endpointTypes s) n = Some (Some t)"
      "syncOneEndpointState h n ep s = snd (sync_try h n e t s)"
  | (demoted) e t where "ep = Some e" "map_of (endpointTypes s) n = Some (Some t)"
      "syncOneEndpointState h n ep s = demote h n (snd (sync_try h n e t s))"
proof (cases ep)
  case None
  then show ?thesis using removed by (simp add: syncOneEndpointState_def)
next
  case (Some e)
  show ?thesis
  proof (cases "map_of (endpointTypes s) n")
    case None
    with Some show ?thesis using skipped by (simp add: syncOneEndpointState_def classified_def)
  next
    case ty: (Some ot)
    show ?thesis
    proof (cases ot)
      case None
      with Some ty show ?thesis using skipped by (simp add: syncOneEndpointState_def classified_def)
    next
      case t: (Some t)
      obtain r s1 where st: "sync_try h n e t s = (r, s1)" by (cases "sync_try h n e t s")
      show ?thesis
      proof (cases "case r of None \<Rightarrow> True | Some m \<Rightarrow> js_includes m ''timeout''")
        case True
        with Some ty t st have "syncOneEndpointState h n ep s = snd (sync_try h n e t s)"
          by (simp add: syncOneEndpointState_def split: option.splits)
        with Some ty t show ?thesis using kept by simp
      next
        case False
        with Some ty t st have "syncOneEndpointState h n ep s = demote h n (snd (sync_try h n e t s))"
          by (simp add: syncOneEndpointState_def split: option.splits)
        with Some ty t show ?thesis using demoted by simp
      qed
    qed
  qed
qed

lemma syncOneEndpointState_other_caps:
  assumes "c \<noteq> onoffCap n" "c \<noteq> dimCap n"
  shows "hasCapability (syncOneEndpointState h n ep s) c = hasCapability s c"
proof (cases rule: syncOneEndpointState_cases[of ep h n s])
  case removed
  then show ?thesis using assms by (simp add: hasCapability_removeEndpointCapabilities)
next
  case skipped
  then show ?thesis by simp
next
  case (kept e t)
  then show ?thesis using assms by (cases t) (simp_all add: hasCapability_sync_try)
next
  case (demoted e t)
  then show ?thesis using assms by (cases t) (simp_all add: hasCapability_demote hasCapability_sync_try)
qed

lemma syncOneEndpointState_other_type:
  assumes "m \<noteq> n"
  shows "map_of (endpointTypes (syncOneEndpointState h n ep s)) m = map_of (endpointTypes s) m"
  using assms
  by (cases rule: syncOneEndpointState_cases[of ep h n s]) (simp_all add: update_conv')

lemma projection_consistent_cong:
  assumes "map_of (endpointTypes s') m = map_of (endpointTypes s) m"
    and "hasCapability s' (onoffCap m) = hasCapability s (onoffCap m)"
    and "hasCapability s' (dimCap m) = hasCapability s (dimCap m)"
  shows "projection_consistent s' m = projection_consistent s m"
  unfolding projection_consistent_def assms by (rule refl)

lemma discoverOneEndpoint_other_caps:
  assumes "c \<noteq> onoffCap n" "c \<noteq> dimCap n"
  shows "hasCapability (discoverOneEndpoint h n ep s) c = hasCapability s c"
  using assms
  by (auto simp: discoverOneEndpoint_def setStoreValue_def hasCapability_def
      removeEndpointCapabilities_def removeIfPresent_def delete_conv' split: option.splits)

lemma discoverOneEndpoint_other_type:
  assumes "m \<noteq> n"
  shows "map_of (endpointTypes (discoverOneEndpoint h n ep s)) m = map_of (endpointTypes s) m"
  using assms
  by (auto simp: discoverOneEndpoint_def setStoreValue_def update_conv' split: option.splits)

subsection \<open>Runs of the engine after a demotion\<close>

lemma classified_syncOneEndpointState:
  "\<not> classified s n \<Longrightarrow> \<not> classified (syncOneEndpointState h m ep s) n"
proof (cases "m = n")
  case True
  assume "\<not> classified s n"
  then show ?thesis unfolding True
    by (cases rule: syncOneEndpointState_cases[of ep h n s]) (auto simp: classified_def)
next
  case False
  assume "\<not> classified s n"
  then show ?thesis using syncOneEndpointState_other_type[of n m h ep s] False
    by (simp add: classified_def)
qed

lemma syncOneEndpointState_keeps_absent:
  assumes "\<not> classified s n" "controls_absent s n"
  shows "\<not> classified (syncOneEndpointState h m ep s) n \<and> controls_absent (syncOneEndpointState h m ep s) n"
proof -
  have c: "\<not> classified (syncOneEndpointState h m ep s) n"
    using assms(1) by (rule classified_syncOneEndpointState)
  have "controls_absent (syncOneEndpointState h m ep s) n"
  proof (cases "m = n")
    case True
    show ?thesis unfolding True
      using assms
      by (cases rule: syncOneEndpointState_cases[of ep h n s])
         (auto simp: controls_absent_def classified_def hasCapability_removeEndpointCapabilities)
  next
    case False
    then show ?thesis using assms(2)
      by (simp add: controls_absent_def syncOneEndpointState_other_caps)
  qed
  with c show ?thesis by simp
qed

lemma fold_syncOne_keeps_absent:
  assumes "\<not> classified s n \<and> controls_absent s n"
  shows "\<not> classified (fold (\<lambda>m. syncOneEndpointState h m (f m)) ms s) n
         \<and> controls_absent (fold (\<lambda>m. syncOneEndpointState h m (f m)) ms s) n"
  using assms
  by (induction ms arbitrary: s) (simp_all add: syncOneEndpointState_keeps_absent)

lemma syncAllEndpointStates_keeps_absent:
  "\<not> classified s n \<and> controls_absent s n \<Longrightarrow>
   \<not> classified (syncAllEndpointStates h nd s) n \<and> controls_absent (syncAllEndpointStates h nd s) n"
  unfolding syncAllEndpointStates_def by (rule fold_syncOne_keeps_absent)

lemma syncEndpointsByType_keeps_absent:
  "\<not> classified s n \<and> controls_absent s n \<Longrightarrow>
   \<not> classified (syncEndpointsByType h ty this_node s) n
   \<and> controls_absent (syncEndpointsByType h ty this_node s) n"
  unfolding syncEndpointsByType_def Let_def
  by (cases this_node) (simp_all add: fold_syncOne_keeps_absent)

lemma cleanupOrphanedEndpoints_keeps_absent:
  assumes "\<not> classified s n \<and> controls_absent s n"
  shows "\<not> classified (cleanupOrphanedEndpoints h s) n \<and> controls_absent (cleanupOrphanedEndpoints h s) n"
proof (cases "maxManifestEndpoint (manifest_capabilities h) = 0")
  case True
  have "cleanupOrphanedEndpoints h s = s"
    unfolding cleanupOrphanedEndpoints_def Let_def by (rule if_P[OF True])
  with assms show ?thesis by simp
next
  case False
  have rm: "\<not> classified (removeEndpointCapabilities h i s') n
            \<and> controls_absent (removeEndpointCapabilities h i s') n"
    if "\<not> classified s' n \<and> controls_absent s' n" for i s'
    using that by (simp add: classified_def controls_absent_def hasCapability_removeEndpointCapabilities)
  show ?thesis
    unfolding cleanupOrphanedEndpoints_def Let_def if_not_P[OF False]
    by (rule fold_preserves[where P = "\<lambda>s. \<not> classified s n \<and> controls_absent s n"])
       (use assms rm in \<open>simp_all del: One_nat_def\<close>)
qed

lemma fold_removeIfPresent_keeps:
  "\<not> hasCapability s c \<Longrightarrow> \<not> hasCapability (fold (removeIfPresent h) xs s) c"
  by (induction xs arbitrary: s) simp_all

lemma fold_removeIfPresent_endpointTypes [simp]:
  "endpointTypes (fold (removeIfPresent h) xs s) = endpointTypes s"
  by (induction xs arbitrary: s) simp_all

lemma cleanupAllEndpoints_keeps_absent:
  assumes "controls_absent s n"
  shows "\<not> classified (cleanupAllEndpoints h s) n \<and> controls_absent (cleanupAllEndpoints h s) n"
proof -
  let ?s1 = "setStoreValue (s\<lparr>endpointTypes := []\<rparr>)"
  have a: "controls_absent ?s1 n"
    using assms by (simp add: controls_absent_def hasCapability_def setStoreValue_def)
  show ?thesis
    using a unfolding cleanupAllEndpoints_def Let_def
    by (simp add: classified_def controls_absent_def fold_removeIfPresent_keeps setStoreValue_def)
qed

text \<open>Discovery of one endpoint in \<open>src/device.js\<close> keeps an endpoint classified or without
  controls.\<close>

lemma discoverOneEndpoint_classified_or_absent:
  assumes "classified s n \<or> controls_absent s n"
  shows "classified (discoverOneEndpoint h m ep s) n \<or> controls_absent (discoverOneEndpoint h m ep s) n"
proof (cases "m = n")
  case True
  show ?thesis
  proof (cases "classified s n")
    case c: True
    then have "discoverOneEndpoint h n ep s = s" by (simp add: discoverOneEndpoint_def split: option.splits)
    with c True show ?thesis by simp
  next
    case False
    with assms have ab: "controls_absent s n" by simp
    have "hasCapability (discoverOneEndpoint h n ep s) c \<Longrightarrow> hasCapability s c" for c
      by (auto simp: discoverOneEndpoint_def setStoreValue_def hasCapability_def
          removeEndpointCapabilities_def removeIfPresent_def delete_conv'
          split: option.splits if_splits)
    with ab True show ?thesis by (auto simp: controls_absent_def)
  qed
next
  case False
  have t: "map_of (endpointTypes (discoverOneEndpoint h m ep s)) n = map_of (endpointTypes s) n"
    using False by (simp add: discoverOneEndpoint_other_type)
  have c: "hasCapability (discoverOneEndpoint h m ep s) (onoffCap n) = hasCapability s (onoffCap n)"
    "hasCapability (discoverOneEndpoint h m ep s) (dimCap n) = hasCapability s (dimCap n)"
    using False by (simp_all add: discoverOneEndpoint_other_caps)
  show ?thesis using assms t c by (simp add: classified_def controls_absent_def)
qed

lemma discoverAllEndpoints_device_js:
  assumes "\<not> classified s n" "controls_absent s n"
  shows "classified (discoverAllEndpoints device_js h nd s) n
         \<or> controls_absent (discoverAllEndpoints device_js h nd s) n"
proof (cases "object_keys (MultiChannelNodes nd) = []")
  case True
  have "discoverAllEndpoints device_js h nd s = cleanupAllEndpoints h s"
    unfolding discoverAllEndpoints_def Let_def by (rule if_P[OF True])
  then show ?thesis using cleanupAllEndpoints_keeps_absent[OF assms(2), of h] by simp
next
  case False
  show ?thesis
    unfolding discoverAllEndpoints_def Let_def if_not_P[OF False]
    by (rule fold_preserves[where P = "\<lambda>s. classified s n \<or> controls_absent s n"])
       (use assms discoverOneEndpoint_classified_or_absent in \<open>simp_all\<close>)
qed

lemma checkDeviceHealth_device_js:
  assumes "\<not> classified s n" "controls_absent s n"
  shows "classified (snd (checkDeviceHealth device_js h this_node s)) n
         \<or> controls_absent (snd (checkDeviceHealth device_js h this_node s)) n"
proof -
  let ?w = "s\<lparr>warnings := warnings s @ [''[HEALTH] Endpoint types lost, attempting rediscovery'']\<rparr>"
  have w: "\<not> classified ?w n" "controls_absent ?w n"
    using assms by (simp_all add: classified_def controls_absent_def hasCapability_def)
  have st: "classified (setStoreValue x) n = classified x n"
    "controls_absent (setStoreValue x) n = controls_absent x n" for x
    by (simp_all add: classified_def controls_absent_def hasCapability_def setStoreValue_def)
  show ?thesis
    using assms w discoverAllEndpoints_device_js[OF w, of h]
    by (cases this_node) (auto simp: checkDeviceHealth_def Let_def st)
qed

lemma engine_step_no_discovery:
  assumes "\<not> is_discovery opn" "\<not> classified s n \<and> controls_absent s n"
  shows "\<not> classified (engine_step rv opn s) n \<and> controls_absent (engine_step rv opn s) n"
  using assms
  by (cases opn)
     (simp_all add: syncOneEndpointState_keeps_absent syncAllEndpointStates_keeps_absent
        syncEndpointsByType_keeps_absent cleanupOrphanedEndpoints_keeps_absent)

lemma engine_step_discovery_device_js:
  assumes "is_discovery opn" "\<not> classified s n \<and> controls_absent s n"
  shows "classified (engine_step device_js opn s) n \<or> controls_absent (engine_step device_js opn s) n"
  using assms
  by (cases opn) (simp_all add: discoverAllEndpoints_device_js checkDeviceHealth_device_js)

lemma absent_until_reclassified_device_js:
  "\<not> classified s n \<and> controls_absent s n \<Longrightarrow> absent_until_reclassified device_js n ops s"
proof (induction ops arbitrary: s)
  case Nil
  then show ?case by simp
next
  case (Cons opn ops)
  show ?case
  proof (cases "is_discovery opn")
    case True
    from engine_step_discovery_device_js[OF True Cons.prems]
    show ?thesis using Cons.IH[of "engine_step device_js opn s"] Cons.prems True by auto
  next
    case False
    from engine_step_no_discovery[OF False Cons.prems, of device_js]
    show ?thesis using Cons.IH[of "engine_step device_js opn s"] Cons.prems False by auto
  qed
qed

lemma engine_run_no_discovery:
  "\<forall>opn \<in> set ops. \<not> is_discovery opn \<Longrightarrow> \<not> classified s n \<and> controls_absent s n \<Longrightarrow>
   \<not> classified (engine_run rv ops s) n \<and> controls_absent (engine_run rv ops s) n"
  unfolding engine_run_def
proof (induction ops arbitrary: s)
  case Nil
  then show ?case by simp
next
  case (Cons opn ops)
  from Cons.prems have nd: "\<not> is_discovery opn" by simp
  show ?case
    using Cons.IH[of "engine_step rv opn s"] Cons.prems engine_step_no_discovery[OF nd Cons.prems(2), of rv]
    by simp
qed

subsection \<open>The command queue\<close>

lemmas queue_defs = queue_step_def queueCapabilityCommand_def processCommandQueue_def
  after_command_def loop_head_def initial_queue_def COMMAND_DELAY_MS_def Let_def


lemma applied_commands_Cons:
  "applied_commands (q\<lparr>history := e # history q\<rparr>) = applied_commands q @ applied_of e"
  by (simp add: applied_commands_def)

lemma queue_step_fifo:
  assumes "queue_step ev q = Some q'"
  shows "applied_commands q' @ commandQueue q' = applied_commands q @ commandQueue q @ enqueued_by ev"
proof -
  obtain now e where ev: "ev = (now, e)" by (cases ev)
  show ?thesis
  proof (cases e)
    case (enqueue capId v)
    with assms ev show ?thesis
      by (cases "commandQueue q")
         (auto simp: queue_defs applied_commands_def split: if_splits)
  next
    case (command_done i r)
    with assms ev show ?thesis
      by (cases "commandQueue q")
         (auto simp: queue_defs applied_commands_def split: if_splits drain_loop.splits)
  next
    case (delay_done i)
    with assms ev show ?thesis
      by (cases "commandQueue q")
         (auto simp: queue_defs applied_commands_def split: if_splits drain_loop.splits)
  qed
qed

lemma queue_run_fifo:
  "queue_run evs q = Some q' \<Longrightarrow>
   applied_commands q' @ commandQueue q' = applied_commands q @ commandQueue q @ enqueued evs"
proof (induction evs arbitrary: q)
  case Nil
  then show ?case by (simp add: enqueued_def)
next
  case (Cons ev evs)
  then obtain q1 where 1: "queue_step ev q = Some q1" and 2: "queue_run evs q1 = Some q'"
    by (auto split: option.splits)
  from Cons.IH[OF 2] queue_step_fifo[OF 1] show ?case by (simp add: enqueued_def)
qed

lemma drain_consistent_cases:
  assumes "drain_consistent q"
  obtains (idle) "loops q = []" "\<not> isProcessingQueue q" "commandQueue q = []"
      "history q = [] \<or> (\<exists>cmd r t rest. history q = settled cmd r t # rest \<and> t \<le> clock q)"
  | (busy) cmd t rest where "loops q = [awaiting_command cmd]" "isProcessingQueue q"
      "history q = applied cmd t # rest" "t \<le> clock q"
  | (waiting) cmd r t rest where "loops q = [awaiting_delay (t + COMMAND_DELAY_MS)]" "isProcessingQueue q"
      "commandQueue q \<noteq> []" "history q = settled cmd r t # rest" "t \<le> clock q"
proof (cases "loops q")
  case Nil
  show ?thesis
  proof (cases "history q")
    case h: Nil
    with Nil assms show ?thesis using idle by (simp add: drain_consistent_def)
  next
    case h: (Cons e rest)
    with Nil assms show ?thesis using idle by (cases e) (simp_all add: drain_consistent_def)
  qed
next
  case (Cons l ls)
  with assms have ls: "ls = []" by (cases ls; cases l) (simp_all add: drain_consistent_def)
  show ?thesis
  proof (cases l)
    case (awaiting_command cmd)
    with Cons ls assms obtain e rest where h: "history q = e # rest"
      by (cases "history q") (simp_all add: drain_consistent_def)
    with awaiting_command Cons ls assms show ?thesis using busy
      by (cases e) (simp_all add: drain_consistent_def)
  next
    case (awaiting_delay due)
    with Cons ls assms obtain e rest where h: "history q = e # rest"
      by (cases "history q") (simp_all add: drain_consistent_def)
    with awaiting_delay Cons ls assms show ?thesis using waiting
      by (cases e) (simp_all add: drain_consistent_def)
  qed
qed

lemma queue_invariant_enqueue:
  assumes "queue_invariant q" "clock q \<le> now"
  shows "queue_invariant (queueCapabilityCommand capId v (q\<lparr>clock := now\<rparr>))"
proof -
  from assms(1) have dc: "drain_consistent q" and o: "one_at_a_time (history q)" and sp: "spaced (history q)"
    by (simp_all add: queue_invariant_def)
  from dc show ?thesis
  proof (cases rule: drain_consistent_cases)
    case idle
    then show ?thesis using o sp assms(2)
      by (auto simp: queue_invariant_def drain_consistent_def queueCapabilityCommand_def processCommandQueue_def
          loop_head_def Let_def)
  next
    case (busy cmd t rest)
    then show ?thesis using o sp assms(2)
      by (auto simp: queue_invariant_def drain_consistent_def queueCapabilityCommand_def processCommandQueue_def
          loop_head_def Let_def)
  next
    case (waiting cmd r t rest)
    then show ?thesis using o sp assms(2)
      by (auto simp: queue_invariant_def drain_consistent_def queueCapabilityCommand_def processCommandQueue_def
          loop_head_def Let_def)
  qed
qed

lemma queue_invariant_command_done:
  assumes "queue_invariant q" "clock q \<le> now" "i < length (loops q)" "loops q ! i = awaiting_command cmd"
  shows "queue_invariant (after_command i cmd r (q\<lparr>clock := now\<rparr>))"
proof -
  from assms(1) have dc: "drain_consistent q" and o: "one_at_a_time (history q)" and sp: "spaced (history q)"
    by (simp_all add: queue_invariant_def)
  from dc show ?thesis
  proof (cases rule: drain_consistent_cases)
    case idle
    with assms(3) show ?thesis by simp
  next
    case (busy cmd' t rest)
    with assms(3,4) have i: "i = 0" "cmd' = cmd" by simp_all
    show ?thesis
    proof (cases "commandQueue q")
      case Nil
      with busy i o sp assms(2) show ?thesis
        by (cases rest) (auto simp: queue_invariant_def drain_consistent_def after_command_def loop_head_def Let_def)
    next
      case (Cons c cs)
      with busy i o sp assms(2) show ?thesis
        by (cases rest) (auto simp: queue_invariant_def drain_consistent_def after_command_def loop_head_def Let_def)
    qed
  next
    case (waiting cmd' r' t rest)
    with assms(3,4) show ?thesis by simp
  qed
qed

lemma queue_invariant_delay_done:
  assumes "queue_invariant q" "clock q \<le> now" "i < length (loops q)" "loops q ! i = awaiting_delay due" "due \<le> now"
  shows "queue_invariant (loop_head i (q\<lparr>clock := now\<rparr>))"
proof -
  from assms(1) have dc: "drain_consistent q" and o: "one_at_a_time (history q)" and sp: "spaced (history q)"
    by (simp_all add: queue_invariant_def)
  from dc show ?thesis
  proof (cases rule: drain_consistent_cases)
    case idle
    with assms(3) show ?thesis by simp
  next
    case (busy cmd' t rest)
    with assms(3,4) show ?thesis by simp
  next
    case (waiting cmd' r' t rest)
    with assms(3,4) have i: "i = 0" "due = t + COMMAND_DELAY_MS" by simp_all
    from waiting obtain c cs where q: "commandQueue q = c # cs" by (cases "commandQueue q") auto
    from waiting i q o sp assms(2,5) show ?thesis
      by (auto simp: queue_invariant_def drain_consistent_def loop_head_def Let_def)
  qed
qed

lemma queue_invariant_step:
  assumes "queue_invariant q" "queue_step ev q = Some q'"
  shows "queue_invariant q'"
proof -
  obtain now e where ev: "ev = (now, e)" by (cases ev)
  from assms(2) ev have t: "clock q \<le> now" by (auto simp: queue_step_def Let_def split: if_splits)
  show ?thesis
  proof (cases e)
    case (enqueue capId v)
    with assms(2) ev t have "q' = queueCapabilityCommand capId v (q\<lparr>clock := now\<rparr>)"
      by (simp add: queue_step_def Let_def)
    then show ?thesis using queue_invariant_enqueue[OF assms(1) t] by simp
  next
    case (command_done i r)
    with assms(2) ev t obtain cmd where "i < length (loops q)" "loops q ! i = awaiting_command cmd"
      "q' = after_command i cmd r (q\<lparr>clock := now\<rparr>)"
      by (auto simp: queue_step_def Let_def split: if_splits drain_loop.splits)
    then show ?thesis using queue_invariant_command_done[OF assms(1) t] by simp
  next
    case (delay_done i)
    with assms(2) ev t obtain due where "i < length (loops q)" "loops q ! i = awaiting_delay due"
      "due \<le> now" "q' = loop_head i (q\<lparr>clock := now\<rparr>)"
      by (auto simp: queue_step_def Let_def split: if_splits drain_loop.splits)
    then show ?thesis using queue_invariant_delay_done[OF assms(1) t] by simp
  qed
qed

lemma queue_invariant_run: "queue_invariant q \<Longrightarrow> queue_run evs q = Some q' \<Longrightarrow> queue_invariant q'"
proof (induction evs arbitrary: q)
  case Nil
  then show ?case by simp
next
  case (Cons ev evs)
  then obtain q1 where 1: "queue_step ev q = Some q1" and 2: "queue_run evs q1 = Some q'"
    by (auto split: option.splits)
  from Cons.IH[OF queue_invariant_step[OF Cons.prems(1) 1] 2] show ?case .
qed

lemma queue_invariant_initial: "queue_invariant initial_queue"
  by (simp add: queue_invariant_def drain_consistent_def initial_queue_def)


lemma drain_idle: "loops q = [] \<Longrightarrow> drain r q = q"
  by (simp add: drain.simps[of r q])

lemma drain_busy_last:
  assumes "loops q = [awaiting_command cmd]" "commandQueue q = []"
  shows "drain r q = q\<lparr>history := settled cmd (r cmd) (clock q) # history q,
                       isProcessingQueue := False, loops := []\<rparr>"
proof -
  have "queue_step (clock q, command_done 0 (r cmd)) q
        = Some (q\<lparr>history := settled cmd (r cmd) (clock q) # history q,
                   isProcessingQueue := False, loops := []\<rparr>)"
    using assms by (simp add: queue_step_def after_command_def loop_head_def Let_def)
  then show ?thesis using assms(1) by (simp add: drain.simps[of r q] drain_idle)
qed

lemma drain_busy_more:
  assumes "loops q = [awaiting_command cmd]" "commandQueue q = c # cs"
  shows "drain r q =
         drain r (q\<lparr>history := applied c (clock q + COMMAND_DELAY_MS)
                                # settled cmd (r cmd) (clock q) # history q,
                     commandQueue := cs, loops := [awaiting_command c],
                     clock := clock q + COMMAND_DELAY_MS\<rparr>)"
proof -
  let ?q1 = "q\<lparr>history := settled cmd (r cmd) (clock q) # history q,
                loops := [awaiting_delay (clock q + COMMAND_DELAY_MS)]\<rparr>"
  let ?q2 = "q\<lparr>history := applied c (clock q + COMMAND_DELAY_MS)
                                # settled cmd (r cmd) (clock q) # history q,
                     commandQueue := cs, loops := [awaiting_command c],
                     clock := clock q + COMMAND_DELAY_MS\<rparr>"
  have 1: "queue_step (clock q, command_done 0 (r cmd)) q = Some ?q1"
    using assms by (simp add: queue_step_def after_command_def loop_head_def Let_def)
  have 2: "queue_step (max (clock ?q1) (clock q + COMMAND_DELAY_MS), delay_done 0) ?q1 = Some ?q2"
    using assms by (simp add: queue_step_def loop_head_def Let_def max_def)
  have "drain r q = drain r ?q1"
    using assms(1) 1 by (simp add: drain.simps[of r q])
  also have "\<dots> = drain r ?q2"
    using 2 by (subst drain.simps) simp
  finally show ?thesis .
qed

lemma drain_settles_all:
  assumes "loops q = [awaiting_command cmd]"
  shows "settlements (drain r q) = settlements q @ (cmd, r cmd) # map (\<lambda>c. (c, r c)) (commandQueue q)
       \<and> applied_commands (drain r q) = applied_commands q @ commandQueue q
       \<and> loops (drain r q) = [] \<and> commandQueue (drain r q) = []
       \<and> \<not> isProcessingQueue (drain r q)"
  using assms
proof (induction "commandQueue q" arbitrary: q cmd)
  case Nil
  then have "commandQueue q = []" by simp
  from drain_busy_last[OF Nil.prems this, of r] show ?case
    using \<open>commandQueue q = []\<close> by (simp add: settlements_def applied_commands_def)
next
  case (Cons c cs)
  then have cq: "commandQueue q = c # cs" by simp
  let ?q2 = "q\<lparr>history := applied c (clock q + COMMAND_DELAY_MS)
                                # settled cmd (r cmd) (clock q) # history q,
                     commandQueue := cs, loops := [awaiting_command c],
                     clock := clock q + COMMAND_DELAY_MS\<rparr>"
  have d: "drain r q = drain r ?q2" using drain_busy_more[OF Cons.prems cq, of r] .
  have ih: "settlements (drain r ?q2) = settlements ?q2 @ (c, r c) # map (\<lambda>c. (c, r c)) (commandQueue ?q2)
       \<and> applied_commands (drain r ?q2) = applied_commands ?q2 @ commandQueue ?q2
       \<and> loops (drain r ?q2) = [] \<and> commandQueue (drain r ?q2) = []
       \<and> \<not> isProcessingQueue (drain r ?q2)"
    by (rule Cons.hyps(1)) simp_all
  show ?case unfolding d using ih cq
    by (simp add: settlements_def applied_commands_def)
qed

section \<open>Claims\<close>

text \<open>
  C2 (as amended). Value application is change-gated: \<open>_setOnOff\<close> and \<open>_setDim\<close> leave the
  device as it is (no transition event, the stored value as before) when the value to apply
  equals the stored value of the control. When the host stores the values it is given,
  synchronising an endpoint a second time against the same reports changes nothing, so
  the second application fires no transition event; the two applications together fire
  at most three (turned-on or turned-off and state-changed for the on/off control,
  dim-changed for the dim control).
\<close>

theorem value_application_change_gated:
  "(getCapabilityValue s cap = JBool v \<longrightarrow> setOnOff h cap v n s = s)
   \<and> (getCapabilityValue s cap = JNum (max 0 (min 1 (case x of None \<Rightarrow> 0 | Some y \<Rightarrow> y)))
        \<longrightarrow> setDim h cap x n s = s)
   \<and> (\<not> setCapabilityValue_fails h (onoffCap n) \<and> \<not> setCapabilityValue_fails h (dimCap n) \<longrightarrow>
        syncOneEndpointState h n ep (syncOneEndpointState h n ep s) = syncOneEndpointState h n ep s
        \<and> length (triggered (syncOneEndpointState h n ep (syncOneEndpointState h n ep s)))
            \<le> length (triggered s) + 3)"
proof (intro conjI impI)
  assume "getCapabilityValue s cap = JBool v"
  then show "setOnOff h cap v n s = s" by (simp add: setOnOff_stable)
next
  assume "getCapabilityValue s cap = JNum (max 0 (min 1 (case x of None \<Rightarrow> 0 | Some y \<Rightarrow> y)))"
  then show "setDim h cap x n s = s" by (simp add: setDim_stable)
next
  assume a: "\<not> setCapabilityValue_fails h (onoffCap n) \<and> \<not> setCapabilityValue_fails h (dimCap n)"
  then show i: "syncOneEndpointState h n ep (syncOneEndpointState h n ep s) = syncOneEndpointState h n ep s"
    by (simp add: syncOneEndpointState_idem)
  show "length (triggered (syncOneEndpointState h n ep (syncOneEndpointState h n ep s)))
            \<le> length (triggered s) + 3"
    unfolding i by (rule syncOneEndpointState_triggers_le)
qed

theorem value_application_change_gated_witness:
  "setOnOff reliable_host ''onoff.ep3'' True 3
       (device_with [(3, Some DIMMER)] [(''onoff.ep3'', JBool True), (''dim.ep3'', JNum (50 / 99))])
     = device_with [(3, Some DIMMER)] [(''onoff.ep3'', JBool True), (''dim.ep3'', JNum (50 / 99))]
   \<and> setDim reliable_host ''dim.ep3'' (Some (50 / 99)) 3
       (device_with [(3, Some DIMMER)] [(''onoff.ep3'', JBool True), (''dim.ep3'', JNum (50 / 99))])
     = device_with [(3, Some DIMMER)] [(''onoff.ep3'', JBool True), (''dim.ep3'', JNum (50 / 99))]
   \<and> syncOneEndpointState reliable_host 3 (Some (dimmer_endpoint report_50))
       (syncOneEndpointState reliable_host 3 (Some (dimmer_endpoint report_50))
          (device_with [(3, Some DIMMER)] []))
     = syncOneEndpointState reliable_host 3 (Some (dimmer_endpoint report_50))
         (device_with [(3, Some DIMMER)] [])"
  using value_application_change_gated
          [where s = "device_with [(3, Some DIMMER)]
                        [(''onoff.ep3'', JBool True), (''dim.ep3'', JNum (50 / 99))]"
             and cap = "''onoff.ep3''" and v = True and h = reliable_host and n = 3]
        value_application_change_gated
          [where s = "device_with [(3, Some DIMMER)]
                        [(''onoff.ep3'', JBool True), (''dim.ep3'', JNum (50 / 99))]"
             and cap = "''dim.ep3''" and x = "Some (50 / 99)" and h = reliable_host and n = 3]
        value_application_change_gated
          [where s = "device_with [(3, Some DIMMER)] []" and h = reliable_host and n = 3
             and ep = "Some (dimmer_endpoint report_50)"]
  by (simp add: getCapabilityValue_def device_with_def reliable_host_def)

text \<open>
  C2 as stated fails: synchronising the dimmer endpoint 3 twice against the report with
  current value 50, from a device whose controls hold no value yet, fires three
  transition events, not at most one.
\<close>

theorem change_gating_counterexample:
  "triggered (syncOneEndpointState reliable_host 3 (Some (dimmer_endpoint report_50))
      (syncOneEndpointState reliable_host 3 (Some (dimmer_endpoint report_50))
         (device_with [(3, Some DIMMER)] [])))
     = [endpoint_turned_on 3, endpoint_state_changed 3 True, endpoint_dim_changed 3 (50 / 99)]
   \<and> \<not> length (triggered (syncOneEndpointState reliable_host 3 (Some (dimmer_endpoint report_50))
      (syncOneEndpointState reliable_host 3 (Some (dimmer_endpoint report_50))
         (device_with [(3, Some DIMMER)] [])))) \<le> 1"
  by (simp add: sync_defs ex_defs cap_eval Let_def)

text \<open>
  C3. A timeout-class error during \<open>syncOne\<close>, that is an error whose message contains
  \<open>timeout\<close>, leaves the Registry and its persisted copy as they were: the endpoint stays
  classified with its type and is not demoted. The on/off control of the endpoint, the dim
  control of a dimmer, and every control of every other endpoint that was present is still
  present. (The only control a timed-out sync can remove is a dim control found on a switch
  endpoint, which does not belong to a switch.)
\<close>

theorem timeout_leaves_endpoint_classified:
  assumes "map_of (endpointTypes s) n = Some (Some t)"
    and "sync_try h n ep t s = (Some errorMsg, s1)"
    and "js_includes errorMsg ''timeout''"
  shows "endpointTypes (syncOneEndpointState h n (Some ep) s) = endpointTypes s
       \<and> storeValue (syncOneEndpointState h n (Some ep) s) = storeValue s
       \<and> classified (syncOneEndpointState h n (Some ep) s) n
       \<and> (hasCapability s (onoffCap n) \<longrightarrow>
            hasCapability (syncOneEndpointState h n (Some ep) s) (onoffCap n))
       \<and> (t = DIMMER \<and> hasCapability s (dimCap n) \<longrightarrow>
            hasCapability (syncOneEndpointState h n (Some ep) s) (dimCap n))
       \<and> (\<forall>c. c \<noteq> dimCap n \<and> hasCapability s c \<longrightarrow>
            hasCapability (syncOneEndpointState h n (Some ep) s) c)"
proof -
  have r: "syncOneEndpointState h n (Some ep) s = s1"
    using assms by (simp add: syncOneEndpointState_def)
  have s1: "s1 = snd (sync_try h n ep t s)" using assms(2) by simp
  have et: "endpointTypes s1 = endpointTypes s" and sv: "storeValue s1 = storeValue s"
    unfolding s1 by simp_all
  have cl: "classified s1 n" using assms(1) et by (simp add: classified_def)
  have hc: "hasCapability s1 c" if "hasCapability s c" "t = SWITCH \<longrightarrow> c \<noteq> dimCap n" for c
    unfolding s1 using that by (cases t) (simp_all add: hasCapability_sync_try)
  show ?thesis unfolding r using et sv cl hc by auto
qed

theorem timeout_leaves_endpoint_classified_witness:
  "endpointTypes (syncOneEndpointState reliable_host 3 (Some (dimmer_endpoint (Rejects ''GET timeout'')))
       (device_with [(3, Some DIMMER)] [(''onoff.ep3'', JBool True), (''dim.ep3'', JNum (1 / 3))]))
     = [(3, Some DIMMER)]
   \<and> hasCapability (syncOneEndpointState reliable_host 3 (Some (dimmer_endpoint (Rejects ''GET timeout'')))
       (device_with [(3, Some DIMMER)] [(''onoff.ep3'', JBool True), (''dim.ep3'', JNum (1 / 3))]))
       ''onoff.ep3''
   \<and> hasCapability (syncOneEndpointState reliable_host 3 (Some (dimmer_endpoint (Rejects ''GET timeout'')))
       (device_with [(3, Some DIMMER)] [(''onoff.ep3'', JBool True), (''dim.ep3'', JNum (1 / 3))]))
       ''dim.ep3''"
proof -
  let ?s = "device_with [(3, Some DIMMER)] [(''onoff.ep3'', JBool True), (''dim.ep3'', JNum (1 / 3))]"
  let ?ep = "dimmer_endpoint (Rejects ''GET timeout'')"
  have 1: "map_of (endpointTypes ?s) 3 = Some (Some DIMMER)" by (simp add: device_with_def)
  have 2: "sync_try reliable_host 3 ?ep DIMMER ?s = (Some ''GET timeout'', ?s)"
    by (simp add: sync_defs ex_defs cap_eval Let_def)
  have 3: "js_includes ''GET timeout'' ''timeout''" by (simp add: startsWith_def)
  have c: "onoffCap 3 = ''onoff.ep3''" "dimCap 3 = ''dim.ep3''" by (simp_all add: cap_eval)
  have h: "hasCapability ?s ''onoff.ep3''" "hasCapability ?s ''dim.ep3''"
    by (simp_all add: hasCapability_def device_with_def)
  have e: "endpointTypes ?s = [(3, Some DIMMER)]" by (simp add: device_with_def)
  show ?thesis
    using timeout_leaves_endpoint_classified[OF 1 2 3] h unfolding c e by simp
qed

text \<open>
  C8. For a dimmer endpoint whose multilevel \<open>GET\<close> resolves to a valid report with a
  number \<open>v\<close> in \<open>[0, 99]\<close> as \<open>Current Value\<close>, \<open>syncOne\<close> stores \<open>v > 0\<close> in the on/off
  control and \<open>v / 99\<close> in the dim control (on a host that adds and sets the two
  capabilities); for \<open>v = 50\<close> that is \<open>true\<close> and \<open>50 / 99\<close>, within a thousandth of 0.505.
  A report that is missing, is no object or lacks the field is a synchronisation failure:
  the \<open>try\<close> block ends with the error \<open>Invalid or missing report during sync\<close> and the
  endpoint is demoted.
\<close>

theorem dimmer_sync_derives_values:
  assumes "map_of (endpointTypes s) n = Some (Some DIMMER)"
    and "COMMAND_CLASS_SWITCH_MULTILEVEL ep = Some (CC (Some (Resolves rep)))"
    and "1 \<le> n"
    and "\<not> addCapability_fails h (onoffCap n)" "\<not> addCapability_fails h (dimCap n)"
    and "\<not> setCapabilityValue_fails h (onoffCap n)" "\<not> setCapabilityValue_fails h (dimCap n)"
  shows "(isValidReport rep ''Current Value'' \<and> report_field rep ''Current Value'' = JNum v
            \<and> 0 \<le> v \<and> v \<le> 99 \<longrightarrow>
          getCapabilityValue (syncOneEndpointState h n (Some ep) s) (onoffCap n) = JBool (0 < v)
          \<and> getCapabilityValue (syncOneEndpointState h n (Some ep) s) (dimCap n) = JNum (v / 99)
          \<and> endpointTypes (syncOneEndpointState h n (Some ep) s) = endpointTypes s)
       \<and> (\<not> isValidReport rep ''Current Value'' \<longrightarrow>
            fst (sync_try h n ep DIMMER s) = Some ''Invalid or missing report during sync''
            \<and> map_of (endpointTypes (syncOneEndpointState h n (Some ep) s)) n = Some None)
       \<and> \<not> isValidReport NotAnObject ''Current Value''"
proof (intro conjI impI)
  assume a: "isValidReport rep ''Current Value'' \<and> report_field rep ''Current Value'' = JNum v
            \<and> 0 \<le> v \<and> v \<le> 99"
  let ?s2 = "ensureCapability h (dimCap n) (ensureCapability h (onoffCap n) s)"
  let ?s4 = "setDim h (dimCap n) (Some (v / 99)) n (setOnOff h (onoffCap n) (0 < v) n ?s2)"
  have r: "syncOneEndpointState h n (Some ep) s = ?s4"
    using assms a
    by (simp add: syncOneEndpointState_def sync_try_def syncDimmerState_def Let_def js_gt_def
        js_div_def ToNumber_def Z_WAVE_MAX_DIM_VALUE_def)
  have m: "max 0 (min 1 (v / 99)) = v / 99" using a by auto
  show "getCapabilityValue (syncOneEndpointState h n (Some ep) s) (onoffCap n) = JBool (0 < v)"
    unfolding r using assms by (simp add: getCapabilityValue_setDim getCapabilityValue_setOnOff)
  show "getCapabilityValue (syncOneEndpointState h n (Some ep) s) (dimCap n) = JNum (v / 99)"
    unfolding r using assms m by (simp add: getCapabilityValue_setDim)
  show "endpointTypes (syncOneEndpointState h n (Some ep) s) = endpointTypes s"
    unfolding r by simp
next
  assume a: "\<not> isValidReport rep ''Current Value''"
  let ?s2 = "ensureCapability h (dimCap n) (ensureCapability h (onoffCap n) s)"
  have t: "sync_try h n ep DIMMER s = (Some ''Invalid or missing report during sync'', ?s2)"
    using assms a by (simp add: sync_try_def syncDimmerState_def Let_def errorMsg_of_def)
  then show "fst (sync_try h n ep DIMMER s) = Some ''Invalid or missing report during sync''"
    by simp
  have "syncOneEndpointState h n (Some ep) s = demote h n ?s2"
    using assms(1) t invalid_report_not_timeout
    by (simp add: syncOneEndpointState_def errorMsg_of_def)
  then show "map_of (endpointTypes (syncOneEndpointState h n (Some ep) s)) n = Some None"
    by (simp add: update_conv')
next
  show "\<not> isValidReport NotAnObject ''Current Value''" by (simp add: isValidReport_def)
qed

theorem dimmer_sync_derives_values_witness:
  "getCapabilityValue (syncOneEndpointState reliable_host 3 (Some (dimmer_endpoint report_50))
       (device_with [(3, Some DIMMER)] [])) ''onoff.ep3'' = JBool True
   \<and> getCapabilityValue (syncOneEndpointState reliable_host 3 (Some (dimmer_endpoint report_50))
       (device_with [(3, Some DIMMER)] [])) ''dim.ep3'' = JNum (50 / 99)
   \<and> \<bar>(50::rat) / 99 - 505 / 1000\<bar> < 1 / 1000
   \<and> map_of (endpointTypes (syncOneEndpointState reliable_host 3
         (Some (dimmer_endpoint (Resolves (Object [(''Value'', JNum 50)]))))
         (device_with [(3, Some DIMMER)] []))) 3 = Some None"
proof -
  let ?s = "device_with [(3, Some DIMMER)] []"
  have 1: "map_of (endpointTypes ?s) 3 = Some (Some DIMMER)" by (simp add: device_with_def)
  have 2: "COMMAND_CLASS_SWITCH_MULTILEVEL (dimmer_endpoint report_50)
             = Some (CC (Some (Resolves (Object [(''Current Value'', JNum 50)]))))"
    by (simp add: dimmer_endpoint_def report_50_def)
  have two: "COMMAND_CLASS_SWITCH_MULTILEVEL (dimmer_endpoint (Resolves (Object [(''Value'', JNum 50)])))
             = Some (CC (Some (Resolves (Object [(''Value'', JNum 50)]))))"
    by (simp add: dimmer_endpoint_def)
  have 3: "(1::nat) \<le> 3" by simp
  have 4: "\<not> addCapability_fails reliable_host (onoffCap 3)" "\<not> addCapability_fails reliable_host (dimCap 3)"
    "\<not> setCapabilityValue_fails reliable_host (onoffCap 3)" "\<not> setCapabilityValue_fails reliable_host (dimCap 3)"
    by (simp_all add: reliable_host_def)
  have c: "onoffCap 3 = ''onoff.ep3''" "dimCap 3 = ''dim.ep3''" by (simp_all add: cap_eval)
  have v: "isValidReport (Object [(''Current Value'', JNum 50)]) ''Current Value''"
    "report_field (Object [(''Current Value'', JNum 50)]) ''Current Value'' = JNum 50"
    "\<not> isValidReport (Object [(''Value'', JNum 50)]) ''Current Value''"
    by (simp_all add: isValidReport_def report_field_def)
  show ?thesis
    using dimmer_sync_derives_values[OF 1 2 3 4, of 50] dimmer_sync_derives_values[OF 1 two 3 4, of 50] v
    unfolding c by simp
qed

text \<open>
  Once \<open>onNodeInit\<close> has assigned the Registry, and on an argument object, the two
  condition handlers do not throw, and they return \<open>false\<close> when the endpoint argument or
  its id is missing or zero, when the Registry has no entry or \<open>null\<close> for the endpoint,
  when the capability they read is absent, and (for the dim comparison) when the comparison
  operator is none of \<open>greater_than\<close>, \<open>less_than\<close>, \<open>equal_to\<close>. A missing or zero id gives
  \<open>false\<close> before the Registry is read, so also before \<open>onNodeInit\<close>.
\<close>

lemma condition_handlers_after_onNodeInit:
  "(endpoint_id args = None \<or> endpoint_id args = Some 0 \<longrightarrow>
      handleEndpointIsOn this (Some args) = Inr False
      \<and> handleEndpointDimCompare h this (Some args) = Inr False)
   \<and> (\<forall>k. endpoint_id args = Some k
          \<and> (map_of (endpointTypes s) k = None \<or> map_of (endpointTypes s) k = Some None) \<longrightarrow>
      handleEndpointIsOn (after_onNodeInit s) (Some args) = Inr False
      \<and> handleEndpointDimCompare h (after_onNodeInit s) (Some args) = Inr False)
   \<and> (\<forall>k. endpoint_id args = Some k \<and> \<not> hasCapability s (onoffCap k) \<longrightarrow>
      handleEndpointIsOn (after_onNodeInit s) (Some args) = Inr False)
   \<and> (\<forall>k. endpoint_id args = Some k \<and> \<not> hasCapability s (dimCap k) \<longrightarrow>
      handleEndpointDimCompare h (after_onNodeInit s) (Some args) = Inr False)
   \<and> (args_comparison args \<noteq> ''greater_than'' \<and> args_comparison args \<noteq> ''less_than''
        \<and> args_comparison args \<noteq> ''equal_to'' \<longrightarrow>
      handleEndpointDimCompare h (after_onNodeInit s) (Some args) = Inr False)
   \<and> (\<exists>b. handleEndpointIsOn (after_onNodeInit s) (Some args) = Inr b)
   \<and> (\<exists>b. handleEndpointDimCompare h (after_onNodeInit s) (Some args) = Inr b)"
proof -
  have a: "endpoint_id args = None \<or> endpoint_id args = Some 0 \<longrightarrow>
      handleEndpointIsOn this (Some args) = Inr False
      \<and> handleEndpointDimCompare h this (Some args) = Inr False"
    by (cases "endpoint_id args")
       (simp_all add: handleEndpointIsOn_def handleEndpointDimCompare_def)
  have b: "\<forall>k. endpoint_id args = Some k
          \<and> (map_of (endpointTypes s) k = None \<or> map_of (endpointTypes s) k = Some None) \<longrightarrow>
      handleEndpointIsOn (after_onNodeInit s) (Some args) = Inr False
      \<and> handleEndpointDimCompare h (after_onNodeInit s) (Some args) = Inr False"
    by (cases "endpoint_id args")
       (simp_all add: handleEndpointIsOn_def handleEndpointDimCompare_def classified_def)
  have c: "\<forall>k. endpoint_id args = Some k \<and> \<not> hasCapability s (onoffCap k) \<longrightarrow>
      handleEndpointIsOn (after_onNodeInit s) (Some args) = Inr False"
    by (cases "endpoint_id args")
       (simp_all add: handleEndpointIsOn_def Let_def)
  have d: "\<forall>k. endpoint_id args = Some k \<and> \<not> hasCapability s (dimCap k) \<longrightarrow>
      handleEndpointDimCompare h (after_onNodeInit s) (Some args) = Inr False"
    by (cases "endpoint_id args")
       (simp_all add: handleEndpointDimCompare_def Let_def)
  have e: "args_comparison args \<noteq> ''greater_than'' \<and> args_comparison args \<noteq> ''less_than''
        \<and> args_comparison args \<noteq> ''equal_to'' \<longrightarrow>
      handleEndpointDimCompare h (after_onNodeInit s) (Some args) = Inr False"
    by (cases "endpoint_id args")
       (simp_all add: handleEndpointDimCompare_def Let_def)
  have f: "\<exists>b. handleEndpointIsOn (after_onNodeInit s) (Some args) = Inr b"
    by (cases "endpoint_id args")
       (auto simp: handleEndpointIsOn_def Let_def)
  have g: "\<exists>b. handleEndpointDimCompare h (after_onNodeInit s) (Some args) = Inr b"
    by (cases "endpoint_id args")
       (auto simp: handleEndpointDimCompare_def Let_def split: option.splits)
  from a b c d e f g show ?thesis by blast
qed

text \<open>
  C10. The claim is that the two condition handlers never throw and return \<open>false\<close> for
  an endpoint that is unknown to the Registry. The code does not do so for every state in
  which a flow can call them: \<open>this._endpointTypes\<close> is assigned in \<open>onNodeInit\<close> only (and
  not at all when \<open>onNodeInit\<close> returns early for a missing node), and both handlers index
  it without a guard. Called with a valid endpoint id before that assignment, both throw a
  \<open>TypeError\<close> instead of returning \<open>false\<close>. (\<open>_checkDeviceHealth\<close> reads the same field as
  \<open>this._endpointTypes || {}\<close>.)
\<close>

theorem condition_handlers_throw_before_onNodeInit:
  "handleEndpointIsOn before_onNodeInit
       (Some \<lparr>args_endpoint = Some (EndpointArg (Some 1)), args_comparison = [],
              args_level = JUndefined\<rparr>)
     = Inl ''TypeError: this._endpointTypes is undefined''
   \<and> handleEndpointDimCompare reliable_host before_onNodeInit
       (Some \<lparr>args_endpoint = Some (EndpointArg (Some 1)), args_comparison = ''greater_than'',
              args_level = JNum (1 / 2)\<rparr>)
     = Inl ''TypeError: this._endpointTypes is undefined''"
  by (simp add: handleEndpointIsOn_def handleEndpointDimCompare_def endpoint_id_def)

text \<open>
  The decision of the health check. Outside the desync state (no Registry entry at all
  while some capability id starts with \<open>onoff.ep\<close> or \<open>dim.ep\<close>) it returns the device
  unchanged, in particular whenever the Registry has an entry. In the desync state it
  first calls \<open>this.warning\<close>: on a base class that has the method it then runs
  \<open>_discoverAllEndpoints\<close> and persists the Registry; on a base class without it the call
  throws and the device is left as it was.
\<close>

lemma health_check_decision:
  "(\<not> (endpointTypes s = []
          \<and> (\<exists>c \<in> fst ` set (capabilities s). startsWith c ''onoff.ep'' \<or> startsWith c ''dim.ep''))
        \<longrightarrow> checkDeviceHealth rv h this_node s = (None, s))
   \<and> (endpointTypes s \<noteq> [] \<longrightarrow> checkDeviceHealth rv h this_node s = (None, s))
   \<and> (endpointTypes s = []
        \<and> (\<exists>c \<in> fst ` set (capabilities s). startsWith c ''onoff.ep'' \<or> startsWith c ''dim.ep'')
        \<and> warning_defined h
        \<longrightarrow> checkDeviceHealth rv h (Some nd) s =
              (None, setStoreValue (discoverAllEndpoints rv h nd
                (s\<lparr>warnings := warnings s @ [''[HEALTH] Endpoint types lost, attempting rediscovery'']\<rparr>))))
   \<and> (endpointTypes s = []
        \<and> (\<exists>c \<in> fst ` set (capabilities s). startsWith c ''onoff.ep'' \<or> startsWith c ''dim.ep'')
        \<and> \<not> warning_defined h
        \<longrightarrow> checkDeviceHealth rv h this_node s = (Some ''TypeError: this.warning is not a function'', s))"
proof -
  let ?sig = "endpointTypes s = []
      \<and> (\<exists>c \<in> fst ` set (capabilities s). startsWith c ''onoff.ep'' \<or> startsWith c ''dim.ep'')"
  have sig: "(discoveredCount s = 0 \<and> capabilityCount s > 0) = ?sig"
    by (simp only: discoveredCount_zero capabilityCount_pos)
  have no: "checkDeviceHealth rv h n' s = (None, s)" if "\<not> ?sig" for n'
  proof -
    from that sig have c: "(discoveredCount s = 0 \<and> capabilityCount s > 0) = False" by blast
    show ?thesis unfolding checkDeviceHealth_def c by (simp only: if_False)
  qed
  have unf: "checkDeviceHealth rv h n' s =
      (if warning_defined h then
         (None,
          case n' of
            None \<Rightarrow> s\<lparr>warnings := warnings s @ [''[HEALTH] Endpoint types lost, attempting rediscovery'']\<rparr>
          | Some nd \<Rightarrow> setStoreValue (discoverAllEndpoints rv h nd
              (s\<lparr>warnings := warnings s @ [''[HEALTH] Endpoint types lost, attempting rediscovery'']\<rparr>)))
       else (Some ''TypeError: this.warning is not a function'', s))"
    if "?sig" for n'
  proof -
    from that sig have c: "(discoveredCount s = 0 \<and> capabilityCount s > 0) = True" by blast
    show ?thesis unfolding checkDeviceHealth_def Let_def c by (simp only: if_True)
  qed
  show ?thesis
  proof (cases "?sig")
    case True
    from unf[OF True, of "Some nd"] unf[OF True, of this_node] True show ?thesis by simp
  next
    case False
    from no[OF False] False show ?thesis by auto
  qed
qed

text \<open>
  C7. The claim is that the health check triggers rediscovery if and only if the desync
  signature holds. The code decides on that signature, but in the desync state its first
  statement is \<open>this.warning(...)\<close>, a method the driver does not define, called before the
  \<open>try\<close> block. On a base class without that method the health check throws there: no
  discovery runs, the Registry stays empty, and the device is unchanged, in both
  revisions. With a \<open>warning\<close> method the same state is rediscovered.
\<close>

theorem health_check_throws_before_rediscovery:
  "checkDeviceHealth device_js reliable_host
       (Some (node_with [(1, switch_endpoint (Resolves (Object [(''Value'', JNum 1)])))]))
       (device_with [] [(''onoff.ep1'', JNull)])
     = (Some ''TypeError: this.warning is not a function'', device_with [] [(''onoff.ep1'', JNull)])
   \<and> checkDeviceHealth part_000 reliable_host
       (Some (node_with [(1, switch_endpoint (Resolves (Object [(''Value'', JNum 1)])))]))
       (device_with [] [(''onoff.ep1'', JNull)])
     = (Some ''TypeError: this.warning is not a function'', device_with [] [(''onoff.ep1'', JNull)])
   \<and> endpointTypes (snd (checkDeviceHealth device_js warning_host
       (Some (node_with [(1, switch_endpoint (Resolves (Object [(''Value'', JNum 1)])))]))
       (device_with [] [(''onoff.ep1'', JNull)])))
     = [(1, Some SWITCH)]"
  by (simp add: checkDeviceHealth_def discoveredCount_def capabilityCount_def object_keys_def
      startsWith_def discoverAllEndpoints_def discoverOneEndpoint_def classified_def
      detectEndpointType_def registerEndpointCapabilities_def try_registerCapability_def
      setStoreValue_def warning_host_def node_with_def ex_defs Let_def)

text \<open>
  C1 (as amended). The debouncer keeps one timer for both classes, in the one field
  \<open>_syncTimeout\<close>: at any instant at most one timer is pending in total, and a root report
  of either class cancels the pending timer, whichever class set it, and starts a timer of
  its own class that is due one quiet window later.
\<close>

theorem debouncer_single_shared_timer:
  "length (timers (debounce_run rv evs (registerRootDeviceListeners nd))) \<le> 1
   \<and> (root_SWITCH_MULTILEVEL nd \<longrightarrow>
        (\<exists>handle. timers (debounce_step rv (now, multilevel_report)
                            (debounce_run rv evs (registerRootDeviceListeners nd)))
                  = [(handle, now + SYNC_DEBOUNCE_MS rv, DIMMER)]))
   \<and> (root_SWITCH_BINARY nd \<longrightarrow>
        (\<exists>handle. timers (debounce_step rv (now, binary_report)
                            (debounce_run rv evs (registerRootDeviceListeners nd)))
                  = [(handle, now + SYNC_DEBOUNCE_MS rv, SWITCH)]))"
proof -
  let ?d = "debounce_run rv evs (registerRootDeviceListeners nd)"
  have inv: "single_shared_timer ?d"
    and m: "multilevelListener_registered ?d = root_SWITCH_MULTILEVEL nd"
    and b: "binaryListener_registered ?d = root_SWITCH_BINARY nd"
    using debounce_run_invariant[OF registerRootDeviceListeners_single, of rv evs nd]
    by (simp_all add: registerRootDeviceListeners_def)
  have len: "length (timers ?d) \<le> 1"
    using inv by (auto simp: single_shared_timer_def split: list.splits)
  have due: "single_shared_timer (run_due_timers now ?d)"
    using inv by (rule run_due_timers_single)
  have ml: "timers (debounce_step rv (now, multilevel_report) ?d)
              = [(next_handle ?d, now + SYNC_DEBOUNCE_MS rv, DIMMER)]" if "root_SWITCH_MULTILEVEL nd"
    using rootListener_timers[OF due, of rv DIMMER now] that m
    by (simp add: debounce_step_def Let_def multilevelListener_def)
  have bn: "timers (debounce_step rv (now, binary_report) ?d)
              = [(next_handle ?d, now + SYNC_DEBOUNCE_MS rv, SWITCH)]" if "root_SWITCH_BINARY nd"
    using rootListener_timers[OF due, of rv SWITCH now] that b
    by (simp add: debounce_step_def Let_def binaryListener_def)
  show ?thesis using len ml bn by blast
qed


theorem debouncer_single_shared_timer_witness:
  "length (timers (debounce_run part_000 [(0, multilevel_report), (50, binary_report)]
       (registerRootDeviceListeners (node_with [])))) \<le> 1
   \<and> (\<exists>handle. timers (debounce_step part_000 (60, multilevel_report)
                        (debounce_run part_000 [(0, multilevel_report), (50, binary_report)]
                           (registerRootDeviceListeners (node_with []))))
                  = [(handle, 260, DIMMER)])
   \<and> (\<exists>handle. timers (debounce_step part_000 (60, binary_report)
                        (debounce_run part_000 [(0, multilevel_report), (50, binary_report)]
                           (registerRootDeviceListeners (node_with []))))
                  = [(handle, 260, SWITCH)])"
  using debouncer_single_shared_timer
          [where rv = part_000 and evs = "[(0, multilevel_report), (50, binary_report)]"
             and nd = "node_with []" and now = 60]
  by (simp add: node_with_def SYNC_DEBOUNCE_MS_def)


text \<open>
  C1 as stated fails: a multilevel root report at time 0 sets a timer for the dimmers; a
  binary root report at time 50 cancels it and sets a timer for the switches; when the
  timers have run, only the switches have been synchronised.
\<close>

theorem shared_timer_counterexample:
  "pending_types (debounce_run device_js [(0, multilevel_report)] (registerRootDeviceListeners (node_with [])))
     = [DIMMER]
   \<and> pending_types (debounce_run device_js [(0, multilevel_report), (50, binary_report)]
        (registerRootDeviceListeners (node_with []))) = [SWITCH]
   \<and> synced (debounce_run device_js [(0, multilevel_report), (50, binary_report), (1000, time_passes)]
        (registerRootDeviceListeners (node_with []))) = [SWITCH]"
  by (simp add: debounce_defs)

text \<open>
  C9 (as amended). A synchronisation of an endpoint whose descriptor is present leaves that
  endpoint consistent, on a host that performs the additions and the removal: if its
  Registry type is still non-null afterwards, a switch has its on/off control and no dim
  control and a dimmer has both. Demotion leaves the demoted endpoint consistent (its type
  is \<open>null\<close>). Synchronisation, demotion and discovery of one endpoint keep every other
  endpoint consistent, and discovery of \<open>src/device.js\<close> does not touch an endpoint that is
  already classified.
\<close>

theorem sync_establishes_projection_consistency:
  "(\<not> addCapability_fails h (onoffCap n) \<and> \<not> addCapability_fails h (dimCap n)
      \<and> \<not> removeCapability_fails h (dimCap n) \<longrightarrow>
        projection_consistent (syncOneEndpointState h n (Some ep) s) n)
   \<and> (m \<noteq> n \<and> projection_consistent s m \<longrightarrow>
        projection_consistent (syncOneEndpointState h n endpoint s) m)
   \<and> projection_consistent (demote h n s) n
   \<and> (m \<noteq> n \<and> projection_consistent s m \<longrightarrow> projection_consistent (demote h n s) m)
   \<and> (m \<noteq> n \<and> projection_consistent s m \<longrightarrow>
        projection_consistent (discoverOneEndpoint h n endpoint s) m)
   \<and> (classified s n \<longrightarrow> discoverOneEndpoint h n endpoint s = s)"
proof (intro conjI impI)
  assume a: "\<not> addCapability_fails h (onoffCap n) \<and> \<not> addCapability_fails h (dimCap n)
      \<and> \<not> removeCapability_fails h (dimCap n)"
  show "projection_consistent (syncOneEndpointState h n (Some ep) s) n"
  proof (cases rule: syncOneEndpointState_cases[of "Some ep" h n s])
    case removed
    then show ?thesis by simp
  next
    case skipped
    then show ?thesis by (auto simp: projection_consistent_def classified_def split: option.splits)
  next
    case (kept e t)
    then show ?thesis using a
      by (cases t) (simp_all add: projection_consistent_def hasCapability_sync_try)
  next
    case (demoted e t)
    then show ?thesis by (simp add: projection_consistent_def update_conv')
  qed
next
  assume a: "m \<noteq> n \<and> projection_consistent s m"
  then have "projection_consistent (syncOneEndpointState h n endpoint s) m = projection_consistent s m"
    by (intro projection_consistent_cong syncOneEndpointState_other_type syncOneEndpointState_other_caps)
       simp_all
  with a show "projection_consistent (syncOneEndpointState h n endpoint s) m" by simp
next
  show "projection_consistent (demote h n s) n"
    by (simp add: projection_consistent_def update_conv')
next
  assume a: "m \<noteq> n \<and> projection_consistent s m"
  then have "projection_consistent (demote h n s) m = projection_consistent s m"
    by (intro projection_consistent_cong) (simp_all add: update_conv' hasCapability_demote)
  with a show "projection_consistent (demote h n s) m" by simp
next
  assume a: "m \<noteq> n \<and> projection_consistent s m"
  then have "projection_consistent (discoverOneEndpoint h n endpoint s) m = projection_consistent s m"
    by (intro projection_consistent_cong discoverOneEndpoint_other_type discoverOneEndpoint_other_caps)
       simp_all
  with a show "projection_consistent (discoverOneEndpoint h n endpoint s) m" by simp
next
  assume "classified s n"
  then show "discoverOneEndpoint h n endpoint s = s"
    by (simp add: discoverOneEndpoint_def split: option.splits)
qed


theorem sync_establishes_projection_consistency_witness:
  "projection_consistent
     (syncOneEndpointState reliable_host 2 (Some (switch_endpoint (Resolves (Object [(''Value'', JStr ''on/enable'')]))))
        (device_with [(2, Some SWITCH), (3, Some DIMMER)]
           [(''dim.ep2'', JNull), (''onoff.ep3'', JNull), (''dim.ep3'', JNull)])) 2
   \<and> projection_consistent
     (syncOneEndpointState reliable_host 2 (Some (switch_endpoint (Resolves (Object [(''Value'', JStr ''on/enable'')]))))
        (device_with [(2, Some SWITCH), (3, Some DIMMER)]
           [(''dim.ep2'', JNull), (''onoff.ep3'', JNull), (''dim.ep3'', JNull)])) 3
   \<and> projection_consistent
     (demote reliable_host 2
        (device_with [(2, Some SWITCH), (3, Some DIMMER)]
           [(''dim.ep2'', JNull), (''onoff.ep3'', JNull), (''dim.ep3'', JNull)])) 3
   \<and> projection_consistent
     (discoverOneEndpoint reliable_host 2 None
        (device_with [(2, Some SWITCH), (3, Some DIMMER)]
           [(''dim.ep2'', JNull), (''onoff.ep3'', JNull), (''dim.ep3'', JNull)])) 3
   \<and> discoverOneEndpoint reliable_host 2 (Some (dimmer_endpoint report_50))
        (device_with [(2, Some SWITCH), (3, Some DIMMER)]
           [(''dim.ep2'', JNull), (''onoff.ep3'', JNull), (''dim.ep3'', JNull)])
      = device_with [(2, Some SWITCH), (3, Some DIMMER)]
           [(''dim.ep2'', JNull), (''onoff.ep3'', JNull), (''dim.ep3'', JNull)]"
proof -
  let ?s = "device_with [(2, Some SWITCH), (3, Some DIMMER)]
           [(''dim.ep2'', JNull), (''onoff.ep3'', JNull), (''dim.ep3'', JNull)]"
  have c3: "projection_consistent ?s 3"
    by (simp add: projection_consistent_def device_with_def hasCapability_def cap_eval)
  have cl: "classified ?s 2" by (simp add: classified_def device_with_def)
  have h: "\<not> addCapability_fails reliable_host (onoffCap 2) \<and> \<not> addCapability_fails reliable_host (dimCap 2)
      \<and> \<not> removeCapability_fails reliable_host (dimCap 2)" by (simp add: reliable_host_def)
  have ne: "(3::nat) \<noteq> 2" by simp
  show ?thesis
    using sync_establishes_projection_consistency
            [where h = reliable_host and n = 2 and m = 3 and s = ?s
               and ep = "switch_endpoint (Resolves (Object [(''Value'', JStr ''on/enable'')]))"
               and endpoint = "Some (switch_endpoint (Resolves (Object [(''Value'', JStr ''on/enable'')])))"]
          sync_establishes_projection_consistency
            [where h = reliable_host and n = 2 and m = 3 and s = ?s and endpoint = None]
          sync_establishes_projection_consistency
            [where h = reliable_host and n = 2 and m = 3 and s = ?s
               and endpoint = "Some (dimmer_endpoint report_50)"]
          c3 cl h ne
    by blast
qed


text \<open>
  C9 as stated fails: the invariant is not preserved by the synchronisation of an endpoint
  whose descriptor is missing from the topology. The controls of the dimmer endpoint 4 are
  removed and its Registry type stays \<open>dimmer\<close>.
\<close>

theorem missing_descriptor_counterexample:
  "projection_consistent
     (device_with [(4, Some DIMMER)] [(''onoff.ep4'', JBool True), (''dim.ep4'', JNum 1)]) 4
   \<and> \<not> projection_consistent
       (syncOneEndpointState reliable_host 4 None
          (device_with [(4, Some DIMMER)] [(''onoff.ep4'', JBool True), (''dim.ep4'', JNum 1)])) 4
   \<and> endpointTypes (syncOneEndpointState reliable_host 4 None
          (device_with [(4, Some DIMMER)] [(''onoff.ep4'', JBool True), (''dim.ep4'', JNum 1)]))
      = [(4, Some DIMMER)]
   \<and> capabilities (syncOneEndpointState reliable_host 4 None
          (device_with [(4, Some DIMMER)] [(''onoff.ep4'', JBool True), (''dim.ep4'', JNum 1)]))
      = []"
  by (simp add: projection_consistent_def sync_defs ex_defs cap_eval Let_def)


text \<open>
  Discovery in \<open>src/device.js\<close> does not establish the invariant either: it commits the type
  of a new endpoint and registers handlers, and adds no control.
\<close>

lemma discovery_commits_type_without_controls:
  "endpointTypes (discoverOneEndpoint reliable_host 3 (Some (dimmer_endpoint report_50)) (device_with [] []))
     = [(3, Some DIMMER)]
   \<and> capabilities (discoverOneEndpoint reliable_host 3 (Some (dimmer_endpoint report_50)) (device_with [] []))
     = []
   \<and> \<not> projection_consistent
        (discoverOneEndpoint reliable_host 3 (Some (dimmer_endpoint report_50)) (device_with [] [])) 3"
  by (simp add: discoverOneEndpoint_def classified_def detectEndpointType_def
      registerEndpointCapabilities_def try_registerCapability_def setStoreValue_def
      projection_consistent_def hasCapability_def ex_defs cap_eval Let_def)

text \<open>
  C4 (as amended). A synchronisation error that is not of the timeout class (a missing or
  malformed report, a rejected \<open>GET\<close>) demotes the endpoint: its Registry type becomes
  \<open>null\<close>, its on/off and dim controls are removed (on a host that performs the removals)
  and the Registry is persisted. From then on, in either revision, the controls stay absent
  and the endpoint unclassified along every run of the engine up to the next discovery
  step; and in \<open>src/device.js\<close> they stay absent along every run up to the first discovery
  step that leaves the endpoint classified again.
\<close>

theorem non_timeout_error_demotes:
  assumes "map_of (endpointTypes s) n = Some (Some t)"
    and "sync_try h n ep t s = (Some errorMsg, s1)"
    and "\<not> js_includes errorMsg ''timeout''"
    and "\<not> removeCapability_fails h (onoffCap n)" "\<not> removeCapability_fails h (dimCap n)"
  shows "map_of (endpointTypes (syncOneEndpointState h n (Some ep) s)) n = Some None
       \<and> controls_absent (syncOneEndpointState h n (Some ep) s) n
       \<and> storeValue (syncOneEndpointState h n (Some ep) s)
           = Some (endpointTypes (syncOneEndpointState h n (Some ep) s))
       \<and> absent_until_reclassified device_js n ops (syncOneEndpointState h n (Some ep) s)
       \<and> ((\<forall>opn \<in> set ops. \<not> is_discovery opn) \<longrightarrow>
            \<not> classified (engine_run rv ops (syncOneEndpointState h n (Some ep) s)) n
            \<and> controls_absent (engine_run rv ops (syncOneEndpointState h n (Some ep) s)) n)"
proof -
  let ?s' = "syncOneEndpointState h n (Some ep) s"
  have r: "?s' = demote h n s1"
    using assms(1,2,3) by (simp add: syncOneEndpointState_def)
  have ty: "map_of (endpointTypes ?s') n = Some None"
    unfolding r by (simp add: update_conv')
  have ab: "controls_absent ?s' n"
    unfolding r using assms(4,5) by (simp add: controls_absent_def hasCapability_demote)
  have st: "storeValue ?s' = Some (endpointTypes ?s')"
    unfolding r by simp
  have q: "\<not> classified ?s' n \<and> controls_absent ?s' n"
    using ty ab by (simp add: classified_def)
  show ?thesis
    using ty ab st absent_until_reclassified_device_js[OF q, of ops]
      engine_run_no_discovery[OF _ q, of ops rv]
    by blast
qed

theorem non_timeout_error_demotes_witness:
  "map_of (endpointTypes (syncOneEndpointState reliable_host 3 (Some (dimmer_endpoint (Rejects ''NACK'')))
       (device_with [(3, Some DIMMER)] [(''onoff.ep3'', JBool True), (''dim.ep3'', JNum 1)]))) 3
     = Some None
   \<and> controls_absent (syncOneEndpointState reliable_host 3 (Some (dimmer_endpoint (Rejects ''NACK'')))
       (device_with [(3, Some DIMMER)] [(''onoff.ep3'', JBool True), (''dim.ep3'', JNum 1)])) 3
   \<and> absent_until_reclassified device_js 3
       [sync_all reliable_host (node_with [(3, dimmer_endpoint report_50)]),
        check_health reliable_host (Some (node_with [(3, dimmer_endpoint report_50)])),
        discover_all reliable_host (node_with [(3, dimmer_endpoint report_50)]),
        sync_all reliable_host (node_with [(3, dimmer_endpoint report_50)])]
       (syncOneEndpointState reliable_host 3 (Some (dimmer_endpoint (Rejects ''NACK'')))
          (device_with [(3, Some DIMMER)] [(''onoff.ep3'', JBool True), (''dim.ep3'', JNum 1)]))
   \<and> controls_absent (engine_run part_000
       [sync_all reliable_host (node_with [(3, dimmer_endpoint report_50)]),
        cleanup_orphaned reliable_host]
       (syncOneEndpointState reliable_host 3 (Some (dimmer_endpoint (Rejects ''NACK'')))
          (device_with [(3, Some DIMMER)] [(''onoff.ep3'', JBool True), (''dim.ep3'', JNum 1)]))) 3"
proof -
  let ?s = "device_with [(3, Some DIMMER)] [(''onoff.ep3'', JBool True), (''dim.ep3'', JNum 1)]"
  let ?ep = "dimmer_endpoint (Rejects ''NACK'')"
  have 1: "map_of (endpointTypes ?s) 3 = Some (Some DIMMER)" by (simp add: device_with_def)
  have 2: "sync_try reliable_host 3 ?ep DIMMER ?s = (Some ''NACK'', ?s)"
    by (simp add: sync_defs ex_defs cap_eval Let_def)
  have 3: "\<not> js_includes ''NACK'' ''timeout''" by (simp add: startsWith_def)
  have 4: "\<not> removeCapability_fails reliable_host (onoffCap 3)"
    "\<not> removeCapability_fails reliable_host (dimCap 3)" by (simp_all add: reliable_host_def)
  show ?thesis
    using non_timeout_error_demotes[OF 1 2 3 4,
            of "[sync_all reliable_host (node_with [(3, dimmer_endpoint report_50)]),
                 check_health reliable_host (Some (node_with [(3, dimmer_endpoint report_50)])),
                 discover_all reliable_host (node_with [(3, dimmer_endpoint report_50)]),
                 sync_all reliable_host (node_with [(3, dimmer_endpoint report_50)])]" device_js]
          non_timeout_error_demotes[OF 1 2 3 4,
            of "[sync_all reliable_host (node_with [(3, dimmer_endpoint report_50)]),
                 cleanup_orphaned reliable_host]" part_000]
    by simp
qed


text \<open>
  C4 as stated fails in the revision of \<open>src/unnamed/part_000\<close>. There discovery adds the
  controls before it registers the handlers; when \<open>registerCapability\<close> then throws an
  error that is no timeout, the endpoint stays unclassified and keeps the controls just
  added. The dimmer endpoint 3 is demoted by a rejected \<open>GET\<close>; the next discovery pass
  leaves its type \<open>null\<close> and both controls present.
\<close>

theorem rediscovery_without_reclassification_counterexample:
  "syncOneEndpointState reliable_host 3 (Some (dimmer_endpoint (Rejects ''NACK'')))
       (device_with [(3, Some DIMMER)] [(''onoff.ep3'', JBool True), (''dim.ep3'', JNum 1)])
     = \<lparr>endpointTypes = [(3, None)], capabilities = [], storeValue = Some [(3, None)],
        triggered = [], warnings = []\<rparr>
   \<and> engine_step part_000 (discover_all rejecting_host (node_with [(3, dimmer_endpoint report_50)]))
       \<lparr>endpointTypes = [(3, None)], capabilities = [], storeValue = Some [(3, None)],
        triggered = [], warnings = []\<rparr>
     = \<lparr>endpointTypes = [(3, None)],
        capabilities = [(''onoff.ep3'', JNull), (''dim.ep3'', JNull)],
        storeValue = Some [(3, None)], triggered = [], warnings = []\<rparr>
   \<and> \<not> absent_until_reclassified part_000 3
         [discover_all rejecting_host (node_with [(3, dimmer_endpoint report_50)])]
         \<lparr>endpointTypes = [(3, None)], capabilities = [], storeValue = Some [(3, None)],
          triggered = [], warnings = []\<rparr>"
  by (simp add: sync_defs discoverAllEndpoints_def object_keys_def node_with_def
      discoverOneEndpoint_part_000_def registerEndpointCapabilities_part_000_def
      try_registerCapability_part_000_def detectEndpointType_def classified_def
      controls_absent_def rejecting_host_def ex_defs cap_eval Let_def)

text \<open>
  C5 (as amended). Along every schedule of enqueues, command completions and elapsed
  delays, from the empty queue: the commands are applied in the order in which they were
  enqueued (the commands applied so far followed by the queue are the commands enqueued);
  they are applied one at a time, each only after the one before it has been settled; at
  most one activation of the drain loop exists, and it exists exactly when the flag is set;
  and a command is applied at least \<open>COMMAND_DELAY_MS\<close> after the command before it was
  settled whenever it was already enqueued at that time. A command enqueued when the
  queue is idle is applied at once, whatever time has passed since the last command.
\<close>

theorem command_queue_fifo_one_at_a_time:
  assumes "queue_run evs initial_queue = Some q"
  shows "applied_commands q @ commandQueue q = enqueued evs
       \<and> one_at_a_time (history q)
       \<and> length (loops q) \<le> 1
       \<and> (isProcessingQueue q \<longleftrightarrow> loops q \<noteq> [])
       \<and> spaced (history q)"
proof -
  have f: "applied_commands q @ commandQueue q = enqueued evs"
    using queue_run_fifo[OF assms] by (simp add: applied_commands_def initial_queue_def)
  have i: "queue_invariant q" using queue_invariant_run[OF queue_invariant_initial assms] .
  then have dc: "drain_consistent q" by (simp add: queue_invariant_def)
  have l: "length (loops q) \<le> 1 \<and> (isProcessingQueue q \<longleftrightarrow> loops q \<noteq> [])"
    using dc by (cases rule: drain_consistent_cases) simp_all
  show ?thesis using f i l by (simp add: queue_invariant_def)
qed


theorem command_queue_fifo_one_at_a_time_witness:
  "queue_run [(0, enqueue ''dim.ep1'' (JNum (1 / 2))), (5, enqueue ''onoff.ep1'' (JBool True)),
              (10, command_done 0 (rejected ''timeout'')), (260, delay_done 0),
              (270, command_done 0 resolved)] initial_queue
     = Some \<lparr>commandQueue = [], isProcessingQueue = False, loops = [], clock = 270,
             history = [settled cmd_on resolved 270, applied cmd_on 260,
                        settled cmd_dim (rejected ''timeout'') 10, applied cmd_dim 0]\<rparr>
   \<and> applied_commands \<lparr>commandQueue = [], isProcessingQueue = False, loops = [], clock = 270,
             history = [settled cmd_on resolved 270, applied cmd_on 260,
                        settled cmd_dim (rejected ''timeout'') 10, applied cmd_dim 0]\<rparr>
       = [cmd_dim, cmd_on]
   \<and> spaced [settled cmd_on resolved 270, applied cmd_on 260,
              settled cmd_dim (rejected ''timeout'') 10, applied cmd_dim 0]
   \<and> one_at_a_time [settled cmd_on resolved 270, applied cmd_on 260,
              settled cmd_dim (rejected ''timeout'') 10, applied cmd_dim 0]"
proof -
  have r: "queue_run [(0, enqueue ''dim.ep1'' (JNum (1 / 2))), (5, enqueue ''onoff.ep1'' (JBool True)),
              (10, command_done 0 (rejected ''timeout'')), (260, delay_done 0),
              (270, command_done 0 resolved)] initial_queue
     = Some \<lparr>commandQueue = [], isProcessingQueue = False, loops = [], clock = 270,
             history = [settled cmd_on resolved 270, applied cmd_on 260,
                        settled cmd_dim (rejected ''timeout'') 10, applied cmd_dim 0]\<rparr>"
    by (simp add: queue_defs cmd_dim_def cmd_on_def)
  show ?thesis
    using command_queue_fifo_one_at_a_time[OF r] r
    by (simp add: enqueued_def cmd_dim_def cmd_on_def)
qed


text \<open>
  C5 as stated fails: the first command is settled at time 10 with nothing left in the
  queue, so the loop ends without a delay; the second command, enqueued at that same time
  (as \<open>set_endpoint_dim\<close> does after awaiting the first), is applied at time 10, not 250 ms
  later.
\<close>

theorem command_spacing_counterexample:
  "queue_run [(0, enqueue ''dim.ep1'' (JNum (1 / 2))), (10, command_done 0 resolved),
              (10, enqueue ''onoff.ep1'' (JBool True))] initial_queue
     = Some \<lparr>commandQueue = [], isProcessingQueue = True, loops = [awaiting_command cmd_on_late],
             clock = 10,
             history = [applied cmd_on_late 10, settled cmd_dim resolved 10, applied cmd_dim 0]\<rparr>
   \<and> \<not> strictly_spaced [applied cmd_on_late 10, settled cmd_dim resolved 10, applied cmd_dim 0]"
  by (simp add: queue_defs cmd_dim_def cmd_on_late_def)


text \<open>
  C6. When the application of a command fails, the only trace of the failure is the
  rejection of that command's own future: the queue, the flag and the drain loop are left
  exactly as after a success. Letting the loop run, every command queued behind it is
  applied, in order, and each future is settled with the result of its own command; the
  loop ends with the queue empty.
\<close>

theorem failed_command_does_not_stop_drain:
  assumes "loops q = [awaiting_command cmd]"
  shows "history (after_command 0 cmd (rejected err) q) = settled cmd (rejected err) (clock q) # history q
       \<and> commandQueue (after_command 0 cmd (rejected err) q) = commandQueue (after_command 0 cmd resolved q)
       \<and> loops (after_command 0 cmd (rejected err) q) = loops (after_command 0 cmd resolved q)
       \<and> isProcessingQueue (after_command 0 cmd (rejected err) q)
           = isProcessingQueue (after_command 0 cmd resolved q)
       \<and> settlements (drain result_of q)
           = settlements q @ (cmd, result_of cmd) # map (\<lambda>c. (c, result_of c)) (commandQueue q)
       \<and> applied_commands (drain result_of q) = applied_commands q @ commandQueue q
       \<and> loops (drain result_of q) = [] \<and> commandQueue (drain result_of q) = []"
proof -
  have a: "history (after_command 0 cmd r q) = settled cmd r (clock q) # history q" for r
    by (cases "commandQueue q") (simp_all add: after_command_def loop_head_def Let_def)
  have b: "commandQueue (after_command 0 cmd r q) = commandQueue q
           \<and> loops (after_command 0 cmd r q)
               = (if commandQueue q = [] then [] else [awaiting_delay (clock q + COMMAND_DELAY_MS)])
           \<and> isProcessingQueue (after_command 0 cmd r q) = (isProcessingQueue q \<and> commandQueue q \<noteq> [])" for r
    using assms by (cases "commandQueue q") (simp_all add: after_command_def loop_head_def Let_def)
  show ?thesis
    using a[of "rejected err"] b[of "rejected err"] b[of resolved] drain_settles_all[OF assms, of result_of]
    by simp
qed


theorem failed_command_does_not_stop_drain_witness:
  "settlements (drain (\<lambda>c. if capabilityId c = ''dim.ep1'' then rejected ''timeout'' else resolved)
       \<lparr>commandQueue = [cmd_on], isProcessingQueue = True, loops = [awaiting_command cmd_dim],
        clock = 5, history = [applied cmd_dim 0]\<rparr>)
     = [(cmd_dim, rejected ''timeout''), (cmd_on, resolved)]
   \<and> applied_commands (drain (\<lambda>c. if capabilityId c = ''dim.ep1'' then rejected ''timeout'' else resolved)
       \<lparr>commandQueue = [cmd_on], isProcessingQueue = True, loops = [awaiting_command cmd_dim],
        clock = 5, history = [applied cmd_dim 0]\<rparr>)
     = [cmd_dim, cmd_on]"
  using failed_command_does_not_stop_drain
          [where q = "\<lparr>commandQueue = [cmd_on], isProcessingQueue = True,
                        loops = [awaiting_command cmd_dim], clock = 5, history = [applied cmd_dim 0]\<rparr>"
             and cmd = cmd_dim
             and result_of = "\<lambda>c. if capabilityId c = ''dim.ep1'' then rejected ''timeout'' else resolved"]
  by (simp add: settlements_def applied_commands_def cmd_dim_def cmd_on_def)

end
